theory Spec2Isabelle
  imports Main "HOL-Library.Word"
begin

section \<open>Toradex Oak sensors over Linux hiddev: \<open>src/rig/OakHidBase.cpp\<close>\<close>

text \<open>
  The functions of \<open>OakHidBase.cpp\<close> are embedded one by one, under their own names.
  A C++ out-parameter (\<open>string&\<close>, an \<open>OakFeatureReport\<close>, which is an array and so is
  passed by address) is an argument of the HOL function holding the caller's value before
  the call and a component of the result holding it after the call. The kernel behind the
  file descriptor is a state of type \<open>'d\<close>, threaded through every call.

  A result \<open>None\<close> stands for a call that does not return normally to its caller: a
  polling loop that never ends, or a C++ exception leaving the function.
\<close>

subsection \<open>Data\<close>

text \<open>
  \<open>EOakStatus\<close> is declared in \<open>OakHidBase.h\<close>; its enumerators are those that
  \<open>getStatusString\<close> switches over, in that order.
\<close>

datatype EOakStatus =
    eOakStatusOK
  | eOakStatusErrorOpeningFile
  | eOakStatusInvalidDeviceType
  | eOakStatusInternalError
  | eOakStatusInvalidStringDescriptorIndex
  | eOakStatusReadError
  | eOakStatusWriteError

text \<open>
  Modelled from the spec: \<open>OakFeatureReport\<close> and \<open>kFeatureReportSize\<close> are declared in
  \<open>OakHidBase.h\<close>, which is not among the sources. The spec gives a feature report as a
  fixed-size buffer of 32 bytes; the code indexes it as \<open>unsigned char\<close>. A report is a
  list of bytes, and \<open>length report = kFeatureReportSize\<close> is what the array type says.
\<close>

type_synonym OakFeatureReport = "8 word list"

definition kFeatureReportSize :: nat where
  "kFeatureReportSize = 32"

text \<open>
  \<open>struct hiddev_field_info\<close> of \<open>linux/hiddev.h\<close>: the four minima and maxima are
  \<open>__s32\<close>, every other member is \<open>__u32\<close>. A 32-bit word carries both; \<open>sint\<close>
  reads a signed member, \<open>unat\<close> an unsigned one.
\<close>

record hiddev_field_info =
  report_type :: "32 word"
  report_id :: "32 word"
  field_index :: "32 word"
  maxusage :: "32 word"
  flags :: "32 word"
  physical :: "32 word"
  logical :: "32 word"
  application :: "32 word"
  logical_minimum :: "32 word"
  logical_maximum :: "32 word"
  physical_minimum :: "32 word"
  physical_maximum :: "32 word"
  unit_exponent :: "32 word"
  unit :: "32 word"

subsection \<open>Strings in feature reports\<close>

text \<open>
  \<open>memcpy(dst + off, src, n)\<close>: byte \<open>i\<close> of the source goes to byte \<open>off + i\<close> of the
  destination, for \<open>i < n\<close>. The source is a \<open>std::string\<close> (a list of \<open>char\<close>), the
  destination an array of \<open>unsigned char\<close>.
\<close>

primrec memcpy :: "8 word list \<Rightarrow> nat \<Rightarrow> string \<Rightarrow> nat \<Rightarrow> 8 word list" where
  "memcpy dst off src 0 = dst"
| "memcpy dst off src (Suc n) = (memcpy dst off src n)[off + n := of_char (src ! n)]"

text \<open>
  \<open>putStringInReport\<close>: the string is cut to its first 20 characters
  (\<open>str.substr(0, 20)\<close>, whose position 0 is never out of range) and copied to offset 5.
\<close>

definition putStringInReport :: "OakFeatureReport \<Rightarrow> string \<Rightarrow> EOakStatus \<times> OakFeatureReport" where
  "putStringInReport report theString =
     (let str = theString;
          str = (if length str > 20 then take 20 str else str)
      in (eOakStatusOK, memcpy report 5 str (length str)))"

text \<open>
  \<open>string((const char *)report + 1)\<close> reads characters from offset 1 up to, and without,
  the first zero byte.
\<close>

definition c_string_at :: "8 word list \<Rightarrow> nat \<Rightarrow> string" where
  "c_string_at buf off = map (\<lambda>b. char_of (unat b)) (takeWhile (\<lambda>b. b \<noteq> 0) (drop off buf))"

definition getStringFromReport ::
    "OakFeatureReport \<Rightarrow> string \<Rightarrow> EOakStatus \<times> OakFeatureReport \<times> string" where
  "getStringFromReport report outString =
     (let report = report[21 := 0];
          outString = c_string_at report 1
      in (eOakStatusOK, report, outString))"

subsection \<open>Field descriptors\<close>

text \<open>
  \<open>getFieldExponent\<close>: \<open>unit_exponent\<close> is unsigned, so the comparison and the
  subtraction are unsigned 32-bit operations; the function's \<open>int\<close> result reads the
  outcome as a signed value.
\<close>

definition getFieldExponent :: "hiddev_field_info \<Rightarrow> int" where
  "getFieldExponent finfo =
     sint (if unit_exponent finfo \<ge> 8 then unit_exponent finfo - 16 else unit_exponent finfo)"

definition isFieldSigned :: "hiddev_field_info \<Rightarrow> bool" where
  "isFieldSigned finfo = (sint (physical_minimum finfo) < 0)"

text \<open>
  \<open>getFieldBitSize\<close>: both operands of the subtraction are \<open>__s32\<close>, so the difference
  is computed in 32-bit \<open>int\<close> and only then widened to \<open>long long\<close>. Where the difference
  does not fit, the 32-bit result wraps around (the subtraction of the word type).
\<close>

definition getFieldBitSize :: "hiddev_field_info \<Rightarrow> int" where
  "getFieldBitSize finfo =
     (let physicalRange = sint (physical_maximum finfo - physical_minimum finfo)
      in if physicalRange \<le> 0xff then 8
         else if physicalRange \<le> 0xffff then 16
         else if physicalRange \<le> 0xffffffff then 32
         else 64)"

subsection \<open>The hiddev device\<close>

text \<open>
  The kernel side of the file descriptor. Each member is one of the system calls the code
  issues, with the arguments the code passes, and returns what the call hands back
  together with the state of the device after the call:
  \<^item> \<open>hidiocgstring index\<close>: \<open>ioctl(HIDIOCGSTRING)\<close> on a descriptor with that index;
    on success the contents of \<open>desc.value\<close>;
  \<^item> \<open>hidiocgfieldinfo finfo\<close>: \<open>ioctl(HIDIOCGFIELDINFO)\<close>; on success the structure as
    the kernel filled it;
  \<^item> \<open>hidiocgreport\<close>, \<open>hidiocsreport\<close>: \<open>ioctl(HIDIOCGREPORT)\<close> and
    \<open>ioctl(HIDIOCSREPORT)\<close> on the feature report (type feature, id 0, one field);
  \<^item> \<open>hidiocgusages\<close>: \<open>ioctl(HIDIOCGUSAGES)\<close> for the \<open>kFeatureReportSize\<close> usages of
    that report; on success the array \<open>uref.values\<close>;
  \<^item> \<open>hidiocsusages values\<close>: \<open>ioctl(HIDIOCSUSAGES)\<close> with these
    \<open>kFeatureReportSize\<close> values;
  \<^item> \<open>hid_read\<close>: \<open>read(deviceHandle, ev, sizeof(ev))\<close>; the returned count (\<open>-1\<close> on
    error, at most \<open>sizeof(ev)\<close>) and the array \<open>ev\<close> after the call.
  \<open>ioctl\<close> reports a failure as \<open>-1\<close>, which is what both tests of the code, \<open>< 0\<close> and
  \<open>== -1\<close>, look for: a failed call is \<open>None\<close> or \<open>False\<close>.
\<close>

record hiddev_event =
  hid :: "32 word"
  "value" :: "32 word"

record 'd hiddev =
  hidiocgstring :: "int \<Rightarrow> 'd \<Rightarrow> string option \<times> 'd"
  hidiocgfieldinfo :: "hiddev_field_info \<Rightarrow> 'd \<Rightarrow> hiddev_field_info option \<times> 'd"
  hidiocgreport :: "'d \<Rightarrow> bool \<times> 'd"
  hidiocgusages :: "'d \<Rightarrow> (nat \<Rightarrow> 32 word) option \<times> 'd"
  hidiocsusages :: "32 word list \<Rightarrow> 'd \<Rightarrow> bool \<times> 'd"
  hidiocsreport :: "'d \<Rightarrow> bool \<times> 'd"
  hid_read :: "'d \<Rightarrow> (int \<times> (nat \<Rightarrow> hiddev_event)) \<times> 'd"

text \<open>\<open>HID_REPORT_TYPE_INPUT\<close> and \<open>HID_REPORT_ID_FIRST\<close> of \<open>linux/hiddev.h\<close>.\<close>

definition HID_REPORT_TYPE_INPUT :: "32 word" where
  "HID_REPORT_TYPE_INPUT = 1"

definition HID_REPORT_ID_FIRST :: "32 word" where
  "HID_REPORT_ID_FIRST = 0x00000100"

subsection \<open>String descriptors and channel names\<close>

text \<open>
  \<open>desc.value\<close> is an array of \<open>HID_STRING_SIZE\<close> characters (\<open>linux/hiddev.h\<close>), and
  \<open>string(desc.value)\<close> is made of the characters of that array before its first NUL.
\<close>

definition HID_STRING_SIZE :: nat where
  "HID_STRING_SIZE = 256"

definition c_str :: "string \<Rightarrow> string" where
  "c_str buf = takeWhile (\<lambda>c. c \<noteq> CHR 0x00) buf"

definition getStringDescriptor ::
    "'d hiddev \<Rightarrow> int \<Rightarrow> string \<Rightarrow> 'd \<Rightarrow> EOakStatus \<times> string \<times> 'd" where
  "getStringDescriptor io index outStr d =
     (case hidiocgstring io index d of
        (None, d) \<Rightarrow> (eOakStatusInvalidStringDescriptorIndex, outStr, d)
      | (Some desc_value, d) \<Rightarrow> (eOakStatusOK, c_str (take HID_STRING_SIZE desc_value), d))"

definition getChannelName ::
    "'d hiddev \<Rightarrow> int \<Rightarrow> string \<Rightarrow> 'd \<Rightarrow> EOakStatus \<times> string \<times> 'd" where
  "getChannelName io channelIndex outChannelName d =
     getStringDescriptor io (4 + channelIndex) outChannelName d"

text \<open>
  \<open>std::string::rfind(c)\<close>: the position of the last occurrence of \<open>c\<close>, \<open>None\<close> for
  \<open>npos\<close>. \<open>std::string::substr(pos, n)\<close>: at most \<open>n\<close> characters from position \<open>pos\<close>;
  it throws \<open>std::out_of_range\<close> (\<open>None\<close>) when \<open>pos\<close> is beyond the size.
\<close>

fun rfind :: "string \<Rightarrow> char \<Rightarrow> nat option" where
  "rfind [] c = None"
| "rfind (x # xs) c =
     (case rfind xs c of
        Some i \<Rightarrow> Some (Suc i)
      | None \<Rightarrow> if x = c then Some 0 else None)"

definition substr :: "string \<Rightarrow> nat \<Rightarrow> nat \<Rightarrow> string option" where
  "substr s pos n = (if pos > length s then None else Some (take n (drop pos s)))"

text \<open>
  The conversion of a position to \<open>int\<close>: \<open>npos\<close> becomes \<open>-1\<close>, which is also the value
  of \<open>(signed)string::npos\<close>. A channel name comes out of the \<open>HID_STRING_SIZE\<close> bytes
  of a string descriptor, so every other position is converted unchanged.
\<close>

definition pos_to_int :: "nat option \<Rightarrow> int" where
  "pos_to_int p = (case p of None \<Rightarrow> -1 | Some i \<Rightarrow> int i)"

definition getFieldUnit ::
    "'d hiddev \<Rightarrow> int \<Rightarrow> string \<Rightarrow> 'd \<Rightarrow> (EOakStatus \<times> string \<times> 'd) option" where
  "getFieldUnit io channelIndex outFieldUnit d =
     (case getChannelName io channelIndex [] d of (status, name, d) \<Rightarrow>
        if eOakStatusOK \<noteq> status then Some (status, outFieldUnit, d)
        else let begin' = pos_to_int (rfind name CHR ''['') in
          if begin' = pos_to_int None then Some (eOakStatusInternalError, outFieldUnit, d)
          else let begin' = begin' + 1;
                   end' = pos_to_int (rfind name CHR '']'') in
            if end' = pos_to_int None then Some (eOakStatusInternalError, outFieldUnit, d)
            else if end' \<le> begin' then Some (eOakStatusInternalError, outFieldUnit, d)
            else (case substr name (nat begin') (nat (end' - begin')) of
                    None \<Rightarrow> None
                  | Some u \<Rightarrow> Some (eOakStatusOK, u, d)))"

definition getFieldInfo ::
    "'d hiddev \<Rightarrow> int \<Rightarrow> hiddev_field_info \<Rightarrow> 'd \<Rightarrow> EOakStatus \<times> hiddev_field_info \<times> 'd" where
  "getFieldInfo io channelIndex finfo d =
     (let finfo = finfo\<lparr>report_type := HID_REPORT_TYPE_INPUT,
                         report_id := HID_REPORT_ID_FIRST,
                         field_index := word_of_int channelIndex\<rparr>
      in case hidiocgfieldinfo io finfo d of
           (None, d) \<Rightarrow> (eOakStatusInternalError, finfo, d)
         | (Some finfo, d) \<Rightarrow> (eOakStatusOK, finfo, d))"

subsection \<open>Feature reports\<close>

text \<open>
  \<open>int(report[i])\<close> widens an \<open>unsigned char\<close> to \<open>int\<close>; \<open>(unsigned char)(uref.values[i])\<close>
  keeps the low byte of an \<open>__s32\<close>. \<open>readFeatureReport\<close> assigns every one of the
  \<open>kFeatureReportSize\<close> bytes of the report, so the report after a successful call is the
  list of the converted values.
\<close>

definition sendFeatureReport :: "'d hiddev \<Rightarrow> OakFeatureReport \<Rightarrow> 'd \<Rightarrow> EOakStatus \<times> 'd" where
  "sendFeatureReport io report d =
     (let uref_values = map (\<lambda>i. ucast (report ! i)) [0..<kFeatureReportSize]
      in case hidiocsusages io uref_values d of
           (False, d) \<Rightarrow> (eOakStatusWriteError, d)
         | (True, d) \<Rightarrow>
             (case hidiocsreport io d of
                (False, d) \<Rightarrow> (eOakStatusWriteError, d)
              | (True, d) \<Rightarrow> (eOakStatusOK, d)))"

definition readFeatureReport ::
    "'d hiddev \<Rightarrow> OakFeatureReport \<Rightarrow> 'd \<Rightarrow> EOakStatus \<times> OakFeatureReport \<times> 'd" where
  "readFeatureReport io report d =
     (case hidiocgreport io d of
        (False, d) \<Rightarrow> (eOakStatusReadError, report, d)
      | (True, d) \<Rightarrow>
          (case hidiocgusages io d of
             (None, d) \<Rightarrow> (eOakStatusReadError, report, d)
           | (Some uref_values, d) \<Rightarrow>
               (eOakStatusOK, map (\<lambda>i. ucast (uref_values i)) [0..<kFeatureReportSize], d)))"

text \<open>
  The two polling statements of \<open>sendReportAndWaitForReply\<close> are
  \<^verbatim>\<open>do { status = readFeatureReport(h, buf); if (eOakStatusOK != status) return status; }
   while (0xff != buf[0]);\<close>
  on a buffer \<open>buf\<close>. Nothing bounds the number of rounds: the loop is a partial function.
\<close>

partial_function (option) readUntilReady ::
    "'d hiddev \<Rightarrow> OakFeatureReport \<Rightarrow> 'd \<Rightarrow> (EOakStatus \<times> OakFeatureReport \<times> 'd) option" where
  "readUntilReady io buf d =
     (case readFeatureReport io buf d of (status, buf, d) \<Rightarrow>
        if eOakStatusOK \<noteq> status then Some (status, buf, d)
        else if 0xff \<noteq> buf ! 0 then readUntilReady io buf d
        else Some (eOakStatusOK, buf, d))"

declare readUntilReady.simps [code]

text \<open>
  \<open>tempReport\<close> is a \<open>static\<close> local: it is part of the program state, passed in and
  returned. The result is the status, \<open>tempReport\<close>, the caller's \<open>report\<close> and the device.
\<close>

definition sendReportAndWaitForReply ::
    "'d hiddev \<Rightarrow> OakFeatureReport \<Rightarrow> OakFeatureReport \<Rightarrow> 'd
      \<Rightarrow> (EOakStatus \<times> OakFeatureReport \<times> OakFeatureReport \<times> 'd) option" where
  "sendReportAndWaitForReply io tempReport report d =
     (case readUntilReady io tempReport d of
        None \<Rightarrow> None
      | Some (status, tempReport, d) \<Rightarrow>
          if eOakStatusOK \<noteq> status then Some (status, tempReport, report, d)
          else (case sendFeatureReport io report d of (status, d) \<Rightarrow>
            if eOakStatusOK \<noteq> status then Some (status, tempReport, report, d)
            else (case readUntilReady io report d of
                    None \<Rightarrow> None
                  | Some (status, report, d) \<Rightarrow> Some (status, tempReport, report, d))))"

subsection \<open>User names\<close>

text \<open>
  \<open>OakFeatureReport report = { 1, persistent ? 1 : 0, 0x15, p, 0 }\<close>: the five listed
  bytes, the rest of the array zero. \<open>(unsigned char)(channelIndex)\<close> keeps the low byte
  of the index. Both functions drop the status of \<open>sendReportAndWaitForReply\<close> and
  return that of \<open>getStringFromReport\<close>.
\<close>

definition getUserDeviceName ::
    "'d hiddev \<Rightarrow> OakFeatureReport \<Rightarrow> string \<Rightarrow> bool \<Rightarrow> 'd
      \<Rightarrow> (EOakStatus \<times> OakFeatureReport \<times> string \<times> 'd) option" where
  "getUserDeviceName io tempReport outDeviceUserName persistent d =
     (let report = [1, if persistent then 1 else 0, 0x15, 0, 0]
                     @ replicate (kFeatureReportSize - 5) 0
      in case sendReportAndWaitForReply io tempReport report d of
           None \<Rightarrow> None
         | Some (_, tempReport, report, d) \<Rightarrow>
             (case getStringFromReport report outDeviceUserName of
                (status, _, outDeviceUserName) \<Rightarrow>
                  Some (status, tempReport, outDeviceUserName, d)))"

definition getUserChannelName ::
    "'d hiddev \<Rightarrow> OakFeatureReport \<Rightarrow> int \<Rightarrow> string \<Rightarrow> bool \<Rightarrow> 'd
      \<Rightarrow> (EOakStatus \<times> OakFeatureReport \<times> string \<times> 'd) option" where
  "getUserChannelName io tempReport channelIndex outUserChannelName persistent d =
     (let report = [1, if persistent then 1 else 0, 0x15, word_of_int channelIndex, 0]
                     @ replicate (kFeatureReportSize - 5) 0
      in case sendReportAndWaitForReply io tempReport report d of
           None \<Rightarrow> None
         | Some (_, tempReport, report, d) \<Rightarrow>
             (case getStringFromReport report outUserChannelName of
                (status, _, outUserChannelName) \<Rightarrow>
                  Some (status, tempReport, outUserChannelName, d)))"

subsection \<open>Channel information\<close>

text \<open>
  Modelled from the spec: \<open>struct ChannelInfo\<close> is declared in \<open>OakHidBase.h\<close>, which is
  not among the sources. Its members are those \<open>getChannelInfo\<close> assigns, with the types
  of the values assigned; the unit string is \<open>unit_name\<close> here, \<open>unit\<close> being the member
  of the field descriptor.
\<close>

record ChannelInfo =
  channelName :: string
  persistentUserChannelName :: string
  volatileUserChannelName :: string
  isSigned :: bool
  bitSize :: int
  unitExponent :: int
  unitCode :: "32 word"
  unit_name :: string

text \<open>
  \<open>hiddev_field_info finfo;\<close> is not initialised: \<open>finfo0\<close> is whatever the stack holds.
  The statuses of the two user-name queries and of \<open>getFieldInfo\<close> are not looked at.
\<close>

definition getChannelInfo ::
    "'d hiddev \<Rightarrow> OakFeatureReport \<Rightarrow> int \<Rightarrow> ChannelInfo \<Rightarrow> hiddev_field_info \<Rightarrow> 'd
      \<Rightarrow> (EOakStatus \<times> OakFeatureReport \<times> ChannelInfo \<times> 'd) option" where
  "getChannelInfo io tempReport channelIndex outChannelInfo finfo0 d =
     (case getChannelName io channelIndex (channelName outChannelInfo) d of (status, name, d) \<Rightarrow>
      let outChannelInfo = outChannelInfo\<lparr>channelName := name\<rparr> in
      if eOakStatusOK \<noteq> status then Some (status, tempReport, outChannelInfo, d)
      else
        (case getUserChannelName io tempReport channelIndex
                (persistentUserChannelName outChannelInfo) True d of
           None \<Rightarrow> None
         | Some (_, tempReport, name, d) \<Rightarrow>
        let outChannelInfo = outChannelInfo\<lparr>persistentUserChannelName := name\<rparr> in
        (case getUserChannelName io tempReport channelIndex
                (volatileUserChannelName outChannelInfo) False d of
           None \<Rightarrow> None
         | Some (_, tempReport, name, d) \<Rightarrow>
        let outChannelInfo = outChannelInfo\<lparr>volatileUserChannelName := name\<rparr> in
        (case getFieldInfo io channelIndex finfo0 d of (_, finfo, d) \<Rightarrow>
        let outChannelInfo = outChannelInfo\<lparr>isSigned := isFieldSigned finfo,
                                             bitSize := getFieldBitSize finfo,
                                             unitExponent := getFieldExponent finfo,
                                             unitCode := unit finfo\<rparr> in
        (case getFieldUnit io channelIndex (unit_name outChannelInfo) d of
           None \<Rightarrow> None
         | Some (status, u, d) \<Rightarrow>
             Some (status, tempReport, outChannelInfo\<lparr>unit_name := u\<rparr>, d))))))"

subsection \<open>Interrupt reports\<close>

text \<open>
  \<open>std::vector<int>::resize(n)\<close> keeps the first \<open>n\<close> elements and appends zeros up to
  length \<open>n\<close>. \<open>sizeof(ev[0])\<close> is 8: two 32-bit members. The read returns at most
  \<open>sizeof(ev)\<close> bytes, so \<open>kCount\<close> is at most 64 and stays within \<open>ev\<close>; the size of
  the vector is taken to fit an \<open>int\<close>, as the cast \<open>(signed)outReadValues.size()\<close>
  supposes. The loop assigns \<open>outReadValues[i]\<close> for \<open>i\<close> from 0 up to \<open>kCount\<close>.
\<close>

definition resize :: "32 word list \<Rightarrow> nat \<Rightarrow> 32 word list" where
  "resize v n = take n v @ replicate (n - length v) 0"

definition sizeof_hiddev_event :: int where
  "sizeof_hiddev_event = 8"

definition readInterruptReport ::
    "'d hiddev \<Rightarrow> 32 word list \<Rightarrow> 'd \<Rightarrow> EOakStatus \<times> 32 word list \<times> 'd" where
  "readInterruptReport io outReadValues d =
     (case hid_read io d of ((rd, ev), d) \<Rightarrow>
        if rd < sizeof_hiddev_event then (eOakStatusReadError, outReadValues, d)
        else
          let kCount = nat (rd div sizeof_hiddev_event);
              outReadValues = (if kCount \<noteq> length outReadValues
                               then resize outReadValues kCount else outReadValues);
              outReadValues = fold (\<lambda>i v. v[i := value (ev i)]) [0..<kCount] outReadValues
          in (eOakStatusOK, outReadValues, d))"

subsection \<open>The calls a device receives\<close>

text \<open>
  To speak about which system calls a function issues, and with which arguments, a device
  is paired with the list of the calls it has received so far. \<open>traced io\<close> answers
  every call as \<open>io\<close> does and appends the call to that list.
\<close>

datatype hid_call =
    HIDIOCGSTRING int
  | HIDIOCGFIELDINFO hiddev_field_info
  | HIDIOCGREPORT
  | HIDIOCGUSAGES
  | HIDIOCSUSAGES "32 word list"
  | HIDIOCSREPORT
  | READ

definition traced :: "'d hiddev \<Rightarrow> ('d \<times> hid_call list) hiddev" where
  "traced io =
     \<lparr> hidiocgstring = (\<lambda>i (d, tr).
         case hidiocgstring io i d of (r, d) \<Rightarrow> (r, (d, tr @ [HIDIOCGSTRING i]))),
       hidiocgfieldinfo = (\<lambda>fi (d, tr).
         case hidiocgfieldinfo io fi d of (r, d) \<Rightarrow> (r, (d, tr @ [HIDIOCGFIELDINFO fi]))),
       hidiocgreport = (\<lambda>(d, tr).
         case hidiocgreport io d of (r, d) \<Rightarrow> (r, (d, tr @ [HIDIOCGREPORT]))),
       hidiocgusages = (\<lambda>(d, tr).
         case hidiocgusages io d of (r, d) \<Rightarrow> (r, (d, tr @ [HIDIOCGUSAGES]))),
       hidiocsusages = (\<lambda>vs (d, tr).
         case hidiocsusages io vs d of (r, d) \<Rightarrow> (r, (d, tr @ [HIDIOCSUSAGES vs]))),
       hidiocsreport = (\<lambda>(d, tr).
         case hidiocsreport io d of (r, d) \<Rightarrow> (r, (d, tr @ [HIDIOCSREPORT]))),
       hid_read = (\<lambda>(d, tr).
         case hid_read io d of (r, d) \<Rightarrow> (r, (d, tr @ [READ]))) \<rparr>"

subsection \<open>Simulated devices and sample data\<close>

text \<open>
  A simulated device without state that answers every call the same way: \<open>name\<close> to a
  string-descriptor query, \<open>finfo\<close> to a field query, \<open>reply\<close> to a feature-report read,
  \<open>writable\<close> to a feature-report send and \<open>input\<close> to a read of interrupt events.
\<close>

definition simulated ::
    "string option \<Rightarrow> hiddev_field_info option \<Rightarrow> (nat \<Rightarrow> 32 word) option \<Rightarrow> bool
      \<Rightarrow> int \<times> (nat \<Rightarrow> hiddev_event) \<Rightarrow> unit hiddev" where
  "simulated name finfo reply writable input =
     \<lparr> hidiocgstring = (\<lambda>i d. (name, d)),
       hidiocgfieldinfo = (\<lambda>fi d. (finfo, d)),
       hidiocgreport = (\<lambda>d. (reply \<noteq> None, d)),
       hidiocgusages = (\<lambda>d. (reply, d)),
       hidiocsusages = (\<lambda>vs d. (writable, d)),
       hidiocsreport = (\<lambda>d. (writable, d)),
       hid_read = (\<lambda>d. (input, d)) \<rparr>"

text \<open>A read of interrupt events that fails.\<close>

definition no_events :: "int \<times> (nat \<Rightarrow> hiddev_event)" where
  "no_events = (-1, \<lambda>i. \<lparr>hid = 0, value = 0\<rparr>)"

definition zero_field :: hiddev_field_info where
  "zero_field =
     \<lparr> report_type = 0, report_id = 0, field_index = 0, maxusage = 0, flags = 0,
       physical = 0, logical = 0, application = 0, logical_minimum = 0,
       logical_maximum = 0, physical_minimum = 0, physical_maximum = 0,
       unit_exponent = 0, unit = 0 \<rparr>"

text \<open>A field over the whole signed 32-bit range: minimum \<open>-2147483648\<close>, maximum \<open>2147483647\<close>.\<close>

definition full_range_field :: hiddev_field_info where
  "full_range_field = zero_field\<lparr>physical_minimum := 0x80000000, physical_maximum := 0x7fffffff\<rparr>"

definition blank_report :: OakFeatureReport where
  "blank_report = replicate kFeatureReportSize 0x20"

text \<open>
  The position of the last occurrence of a character, in the spec's words: \<open>c\<close> stands
  at position \<open>i\<close> of \<open>s\<close> and at no later position.
\<close>

definition is_last_pos :: "string \<Rightarrow> char \<Rightarrow> nat \<Rightarrow> bool" where
  "is_last_pos s c i \<longleftrightarrow> i < length s \<and> s ! i = c \<and> (\<forall>j \<in> {i<..<length s}. s ! j \<noteq> c)"

text \<open>A device whose string descriptors all hold \<open>name\<close> and that fails every other call.\<close>

definition named :: "string \<Rightarrow> unit hiddev" where
  "named name = simulated (Some name) None None False no_events"

text \<open>
  A device that delivers \<open>rd\<close> bytes of interrupt events, event \<open>i\<close> carrying the value
  \<open>7 + i\<close>, and fails every other call.
\<close>

definition streaming :: "int \<Rightarrow> unit hiddev" where
  "streaming rd = simulated None None None False (rd, \<lambda>i. \<lparr>hid = 0, value = 7 + of_nat i\<rparr>)"

text \<open>The calls that a polling loop issues.\<close>

definition poll_calls :: "hid_call set" where
  "poll_calls = {HIDIOCGREPORT, HIDIOCGUSAGES}"

text \<open>
  A device whose feature-report reads all succeed and always carry the readiness byte
  \<open>0xFF\<close>: in every state, \<open>HIDIOCGREPORT\<close> succeeds and \<open>HIDIOCGUSAGES\<close> succeeds with a
  first value whose low byte is \<open>0xFF\<close>. A device that accepts every send: in every
  state, \<open>HIDIOCSUSAGES\<close> and \<open>HIDIOCSREPORT\<close> succeed.
\<close>

definition always_ready :: "'d hiddev \<Rightarrow> bool" where
  "always_ready io \<longleftrightarrow>
     (\<forall>d. fst (hidiocgreport io d)
        \<and> (\<exists>v. fst (hidiocgusages io d) = Some v \<and> (ucast (v 0) :: 8 word) = 0xff))"

definition accepts_sends :: "'d hiddev \<Rightarrow> bool" where
  "accepts_sends io \<longleftrightarrow> (\<forall>vs d. fst (hidiocsusages io vs d)) \<and> (\<forall>d. fst (hidiocsreport io d))"

text \<open>
  Simulated devices for the protocol engine. Their feature report reads \<open>0xFF\<close> at byte 0
  and \<open>0x4F\<close> everywhere else. \<open>answering\<close> accepts every send, \<open>send_refusing\<close> rejects
  every send, \<open>unplugged\<close> fails every call, and \<open>labelled\<close> is \<open>answering\<close> with the
  channel name \<open>Humidity [%]\<close> and a field descriptor.
\<close>

definition ready_reply :: "nat \<Rightarrow> 32 word" where
  "ready_reply i = (if i = 0 then 0xff else 0x4f)"

definition ready_report :: OakFeatureReport where
  "ready_report = map (\<lambda>i. ucast (ready_reply i)) [0..<kFeatureReportSize]"

definition answering :: "unit hiddev" where
  "answering = simulated None None (Some ready_reply) True no_events"

definition send_refusing :: "unit hiddev" where
  "send_refusing = simulated None None (Some ready_reply) False no_events"

definition unplugged :: "unit hiddev" where
  "unplugged = simulated None None None False no_events"

definition labelled :: "unit hiddev" where
  "labelled = simulated (Some ''Humidity [%]'') (Some zero_field) (Some ready_reply) True no_events"

definition blank_info :: ChannelInfo where
  "blank_info =
     \<lparr> channelName = [], persistentUserChannelName = [], volatileUserChannelName = [],
       isSigned = False, bitSize = 0, unitExponent = 0, unitCode = 0, unit_name = [] \<rparr>"

text \<open>
  A device with one bit of state that renames its channel: it is \<open>labelled\<close>, except that
  only its first string-descriptor query is answered \<open>Humidity [%]\<close> and every later one
  \<open>NoUnit\<close>. The state tells whether a string descriptor has been queried.
\<close>

definition renaming :: "bool hiddev" where
  "renaming =
     \<lparr> hidiocgstring = (\<lambda>i queried. (Some (if queried then ''NoUnit'' else ''Humidity [%]''), True)),
       hidiocgfieldinfo = (\<lambda>fi d. (Some zero_field, d)),
       hidiocgreport = (\<lambda>d. (True, d)),
       hidiocgusages = (\<lambda>d. (Some ready_reply, d)),
       hidiocsusages = (\<lambda>vs d. (True, d)),
       hidiocsreport = (\<lambda>d. (True, d)),
       hid_read = (\<lambda>d. (no_events, d)) \<rparr>"

section \<open>Properties\<close>

subsection \<open>Report codec\<close>

lemma length_memcpy: "length (memcpy dst off src n) = length dst"
  by (induction n) simp_all

lemma nth_memcpy:
  "j < length dst \<Longrightarrow>
     memcpy dst off src n ! j = (if off \<le> j \<and> j < off + n then of_char (src ! (j - off)) else dst ! j)"
  by (induction n) (auto simp: length_memcpy nth_list_update less_Suc_eq)

lemma takeWhile_length_le:
  assumes "i < length xs" and "\<not> P (xs ! i)"
  shows "length (takeWhile P xs) \<le> i"
proof (rule ccontr)
  assume "\<not> length (takeWhile P xs) \<le> i"
  then have lt: "i < length (takeWhile P xs)" by simp
  then have "takeWhile P xs ! i = xs ! i" by (rule takeWhile_nth)
  moreover have "takeWhile P xs ! i \<in> set (takeWhile P xs)" using lt by simp
  ultimately show False using assms(2) by (auto dest: set_takeWhileD)
qed

text \<open>
  C6. \<open>putStringInReport\<close> (the spec's \<open>encodeString\<close>) returns OK; in a 32-byte report
  it puts character \<open>i\<close> of the string at offset \<open>5 + i\<close> for every \<open>i\<close> below the smaller
  of the string's length and 20, keeps the report 32 bytes long, and leaves every byte
  at an offset below 5 or above 24 as it was.
\<close>

theorem putStringInReport_frame:
  assumes "length report = kFeatureReportSize"
  shows "fst (putStringInReport report theString) = eOakStatusOK
       \<and> length (snd (putStringInReport report theString)) = kFeatureReportSize
       \<and> (\<forall>i < min (length theString) 20.
             snd (putStringInReport report theString) ! (5 + i) = of_char (theString ! i))
       \<and> (\<forall>j < kFeatureReportSize. j < 5 \<or> 24 < j \<longrightarrow>
             snd (putStringInReport report theString) ! j = report ! j)"
  using assms
  by (auto simp: putStringInReport_def Let_def length_memcpy nth_memcpy kFeatureReportSize_def)

theorem putStringInReport_frame_witness:
  "length blank_report = kFeatureReportSize
   \<and> fst (putStringInReport blank_report ''a name of twenty-six bytes'') = eOakStatusOK
   \<and> snd (putStringInReport blank_report ''a name of twenty-six bytes'') ! (5 + 19) = of_char CHR ''x''
   \<and> snd (putStringInReport blank_report ''a name of twenty-six bytes'') ! 25 = blank_report ! 25"
proof -
  let ?s = "''a name of twenty-six bytes''"
  have len: "length blank_report = kFeatureReportSize"
    by (simp add: blank_report_def)
  note frame = putStringInReport_frame [OF len, of ?s]
  from frame have ok: "fst (putStringInReport blank_report ?s) = eOakStatusOK"
    by (rule conjunct1)
  from frame have "\<forall>i < min (length ?s) 20.
      snd (putStringInReport blank_report ?s) ! (5 + i) = of_char (?s ! i)"
    by blast
  then have "(19::nat) < min (length ?s) 20 \<longrightarrow>
      snd (putStringInReport blank_report ?s) ! (5 + 19) = of_char (?s ! 19)"
    by (rule spec)
  then have payload: "snd (putStringInReport blank_report ?s) ! (5 + 19) = of_char CHR ''x''"
    by simp
  from frame have "\<forall>j < kFeatureReportSize. j < 5 \<or> 24 < j \<longrightarrow>
      snd (putStringInReport blank_report ?s) ! j = blank_report ! j"
    by blast
  then have "(25::nat) < kFeatureReportSize \<longrightarrow> 25 < (5::nat) \<or> 24 < (25::nat) \<longrightarrow>
      snd (putStringInReport blank_report ?s) ! 25 = blank_report ! 25"
    by (rule spec)
  then have beyond: "snd (putStringInReport blank_report ?s) ! 25 = blank_report ! 25"
    by (simp add: kFeatureReportSize_def)
  from len ok payload beyond show ?thesis by blast
qed

text \<open>
  C9. \<open>getStringFromReport\<close> (the spec's \<open>decodeString\<close>) returns OK, leaves a 32-byte
  report as it was but for byte 21, which is set to 0, and the string it extracts, read
  from offset 1 up to the first zero byte, has at most 20 characters.
\<close>

theorem getStringFromReport_frame:
  assumes "length report = kFeatureReportSize"
  shows "\<exists>s. getStringFromReport report outString = (eOakStatusOK, report[21 := 0], s)
           \<and> s = c_string_at (report[21 := 0]) 1 \<and> length s \<le> 20"
proof -
  let ?r = "report[21 := 0]"
  have "length (takeWhile (\<lambda>b. b \<noteq> 0) (drop 1 ?r)) \<le> 20"
    by (rule takeWhile_length_le) (use assms in \<open>simp_all add: kFeatureReportSize_def\<close>)
  then show ?thesis
    by (simp add: getStringFromReport_def c_string_at_def Let_def)
qed

theorem getStringFromReport_frame_witness:
  "length blank_report = kFeatureReportSize
   \<and> (\<exists>s. getStringFromReport blank_report [] = (eOakStatusOK, blank_report[21 := 0], s)
          \<and> s = c_string_at (blank_report[21 := 0]) 1 \<and> length s \<le> 20)"
proof -
  have len: "length blank_report = kFeatureReportSize"
    by (simp add: blank_report_def)
  from getStringFromReport_frame [OF len, of "[]"] len show ?thesis by simp
qed

subsection \<open>Metadata decoder\<close>

lemma word_lt_16_cases:
  fixes w :: "32 word"
  assumes "w < 16"
  shows "w \<in> {0, 1, 2, 3, 4, 5, 6, 7, 8, 9, 10, 11, 12, 13, 14, 15}"
proof -
  have "unat w < 16" using assms by (simp add: word_less_nat_alt)
  then have "unat w \<in> {0, 1, 2, 3, 4, 5, 6, 7, 8, 9, 10, 11, 12, 13, 14, 15}"
    by simp arith
  then have "of_nat (unat w) \<in> (of_nat ` {0, 1, 2, 3, 4, 5, 6, 7, 8, 9, 10, 11, 12, 13, 14, 15} :: 32 word set)"
    by (rule imageI)
  then show ?thesis by simp
qed

text \<open>
  C4. For a raw unit exponent in 0..15, \<open>getFieldExponent\<close> returns \<open>raw - 16\<close> when
  \<open>raw \<ge> 8\<close> and \<open>raw\<close> otherwise: raw 0 gives 0, raw 7 gives 7, raw 8 gives -8 and raw
  15 gives -1.
\<close>

theorem getFieldExponent_nibble:
  assumes "unit_exponent finfo < 16"
  shows "getFieldExponent finfo =
           (if unit_exponent finfo \<ge> 8 then uint (unit_exponent finfo) - 16
            else uint (unit_exponent finfo))"
  using word_lt_16_cases [OF assms]
  by (auto simp: getFieldExponent_def)

theorem getFieldExponent_nibble_witness:
  "unit_exponent (zero_field\<lparr>unit_exponent := 0\<rparr>) < 16
     \<and> getFieldExponent (zero_field\<lparr>unit_exponent := 0\<rparr>) = 0
   \<and> unit_exponent (zero_field\<lparr>unit_exponent := 7\<rparr>) < 16
     \<and> getFieldExponent (zero_field\<lparr>unit_exponent := 7\<rparr>) = 7
   \<and> unit_exponent (zero_field\<lparr>unit_exponent := 8\<rparr>) < 16
     \<and> getFieldExponent (zero_field\<lparr>unit_exponent := 8\<rparr>) = -8
   \<and> unit_exponent (zero_field\<lparr>unit_exponent := 15\<rparr>) < 16
     \<and> getFieldExponent (zero_field\<lparr>unit_exponent := 15\<rparr>) = -1"
  using getFieldExponent_nibble [of "zero_field\<lparr>unit_exponent := 0\<rparr>"]
        getFieldExponent_nibble [of "zero_field\<lparr>unit_exponent := 7\<rparr>"]
        getFieldExponent_nibble [of "zero_field\<lparr>unit_exponent := 8\<rparr>"]
        getFieldExponent_nibble [of "zero_field\<lparr>unit_exponent := 15\<rparr>"]
  by simp

text \<open>
  How far the widths of \<open>getFieldBitSize\<close> follow the physical range: as long as
  \<open>physical_maximum - physical_minimum\<close> fits a signed 32-bit integer, the result is 8
  up to \<open>0xFF\<close>, 16 up to \<open>0xFFFF\<close> and 32 above; and 64 is never returned.
\<close>

lemma getFieldBitSize_fitting:
  assumes "sint (physical_maximum finfo) - sint (physical_minimum finfo) < 2 ^ 31"
      and "- (2 ^ 31) \<le> sint (physical_maximum finfo) - sint (physical_minimum finfo)"
  shows "getFieldBitSize finfo =
           (let range = sint (physical_maximum finfo) - sint (physical_minimum finfo)
            in if range \<le> 0xff then 8 else if range \<le> 0xffff then 16
               else if range \<le> 0xffffffff then 32 else 64)"
proof -
  have "sint (physical_maximum finfo - physical_minimum finfo)
          = sint (physical_maximum finfo) - sint (physical_minimum finfo)"
    using assms by (simp add: sint_word_diff signed_take_bit_int_eq_self)
  then show ?thesis by (simp add: getFieldBitSize_def Let_def)
qed

lemma getFieldBitSize_never_64: "getFieldBitSize finfo \<noteq> 64"
proof -
  have "sint (physical_maximum finfo - physical_minimum finfo) < 2 ^ 31"
    using sint_lt [of "physical_maximum finfo - physical_minimum finfo"] by simp
  then show ?thesis by (simp add: getFieldBitSize_def Let_def)
qed

text \<open>
  C5. The claim gives width 32 to a physical range of 4294967295. The only field with
  that range spans the whole signed 32-bit range, and for it \<open>getFieldBitSize\<close>
  returns 8: the difference is taken in 32 bits, where it is \<open>-1\<close>.
\<close>

theorem getFieldBitSize_full_range:
  "sint (physical_maximum full_range_field) - sint (physical_minimum full_range_field) = 4294967295
   \<and> getFieldBitSize full_range_field = 8"
  by (simp add: getFieldBitSize_def full_range_field_def zero_field_def)

lemma rfind_None: "rfind s c = None \<longleftrightarrow> c \<notin> set s"
  by (induction s) (auto split: option.splits)

lemma is_last_pos_unique: "is_last_pos s c i \<Longrightarrow> is_last_pos s c j \<Longrightarrow> i = j"
  unfolding is_last_pos_def
  by (metis greaterThanLessThan_iff linorder_neqE_nat)

lemma is_last_pos_in_set: "is_last_pos s c i \<Longrightarrow> c \<in> set s"
  unfolding is_last_pos_def by (metis nth_mem)

lemma rfind_is_last_pos: "rfind s c = Some i \<Longrightarrow> is_last_pos s c i"
proof (induction s arbitrary: i)
  case Nil
  then show ?case by simp
next
  case (Cons x xs)
  show ?case
  proof (cases "rfind xs c")
    case None
    with Cons.prems have "x = c" "i = 0" by (auto split: if_splits)
    moreover from None have "c \<notin> set xs" by (simp add: rfind_None)
    ultimately show ?thesis
      by (auto simp: is_last_pos_def nth_Cons split: nat.splits)
  next
    case (Some k)
    with Cons.prems have i: "i = Suc k" by simp
    from Cons.IH [OF Some] show ?thesis
      unfolding i is_last_pos_def
      by (auto simp: nth_Cons split: nat.splits)
  qed
qed

lemma rfind_Some_iff: "rfind s c = Some i \<longleftrightarrow> is_last_pos s c i"
proof
  assume "rfind s c = Some i"
  then show "is_last_pos s c i" by (rule rfind_is_last_pos)
next
  assume l: "is_last_pos s c i"
  then have "c \<in> set s" by (rule is_last_pos_in_set)
  then obtain k where k: "rfind s c = Some k"
    using rfind_None [of s c] by (cases "rfind s c") auto
  with l show "rfind s c = Some i"
    using is_last_pos_unique rfind_is_last_pos by blast
qed



lemma named_getChannelName:
  "getChannelName (named n) i s () = (eOakStatusOK, c_str (take HID_STRING_SIZE n), ())"
  by (simp add: getChannelName_def getStringDescriptor_def named_def simulated_def)

lemma length_getChannelName:
  "getChannelName io channelIndex outChannelName d = (eOakStatusOK, name, d')
     \<Longrightarrow> length name \<le> HID_STRING_SIZE"
proof -
  have "length (c_str (take HID_STRING_SIZE v)) \<le> HID_STRING_SIZE" for v
    unfolding c_str_def
    by (rule order_trans [OF length_takeWhile_le]) simp
  then show "getChannelName io channelIndex outChannelName d = (eOakStatusOK, name, d')
     \<Longrightarrow> length name \<le> HID_STRING_SIZE"
    by (auto simp: getChannelName_def getStringDescriptor_def split: prod.splits option.splits)
qed

text \<open>
  C2, as stated, fails on the channel name \<open>a[]\<close>: both brackets are there, the last
  \<open>]\<close> (position 2) comes after the last \<open>[\<close> (position 1), and \<open>getFieldUnit\<close> returns
  InternalError where the claim has it succeed with the empty string between them.
\<close>

theorem getFieldUnit_empty_brackets:
  "getChannelName (named ''a[]'') 0 [] () = (eOakStatusOK, ''a[]'', ())
   \<and> CHR ''['' \<in> set ''a[]'' \<and> CHR '']'' \<in> set ''a[]''
   \<and> is_last_pos ''a[]'' CHR ''['' 1 \<and> is_last_pos ''a[]'' CHR '']'' 2
   \<and> getFieldUnit (named ''a[]'') 0 ''old'' () = Some (eOakStatusInternalError, ''old'', ())"
  by (simp add: getFieldUnit_def named_getChannelName c_str_def HID_STRING_SIZE_def pos_to_int_def is_last_pos_def)

text \<open>
  C2, amended. For every channel whose name query succeeds, \<open>getFieldUnit\<close> returns, and
  it returns InternalError exactly when the name has no \<open>[\<close>, or no \<open>]\<close>, or its last
  \<open>]\<close> stands before or right after its last \<open>[\<close> (at a position \<open>\<le>\<close> that of the \<open>[\<close> plus
  one, so that nothing is between them); the caller's string is then left as it was.
  Otherwise it returns OK and the characters strictly between the last \<open>[\<close> and the last
  \<open>]\<close>.
\<close>

theorem getFieldUnit_brackets:
  assumes "getChannelName io channelIndex [] d = (eOakStatusOK, name, d')"
  shows "\<exists>status u. getFieldUnit io channelIndex outFieldUnit d = Some (status, u, d')
     \<and> (status = eOakStatusInternalError \<longleftrightarrow>
          CHR ''['' \<notin> set name \<or> CHR '']'' \<notin> set name
          \<or> (\<exists>b e. is_last_pos name CHR ''['' b \<and> is_last_pos name CHR '']'' e \<and> e \<le> b + 1))
     \<and> (status = eOakStatusInternalError \<longrightarrow> u = outFieldUnit)
     \<and> (status \<noteq> eOakStatusInternalError \<longrightarrow> status = eOakStatusOK
          \<and> (\<exists>b e. is_last_pos name CHR ''['' b \<and> is_last_pos name CHR '']'' e \<and> b + 1 < e
                \<and> u = take (e - b - 1) (drop (b + 1) name)))"
proof (cases "rfind name CHR ''[''")
  case None
  then have absent: "CHR ''['' \<notin> set name" by (simp add: rfind_None)
  from None assms have res: "getFieldUnit io channelIndex outFieldUnit d
      = Some (eOakStatusInternalError, outFieldUnit, d')"
    by (simp add: getFieldUnit_def pos_to_int_def)
  show ?thesis
    by (rule exI [of _ eOakStatusInternalError], rule exI [of _ outFieldUnit])
       (use res absent in simp)
next
  case b: (Some b)
  then have lb: "is_last_pos name CHR ''['' b" by (rule rfind_is_last_pos)
  then have inb: "CHR ''['' \<in> set name" by (rule is_last_pos_in_set)
  show ?thesis
  proof (cases "rfind name CHR '']''")
    case None
    then have absent: "CHR '']'' \<notin> set name" by (simp add: rfind_None)
    from None b assms have res: "getFieldUnit io channelIndex outFieldUnit d
        = Some (eOakStatusInternalError, outFieldUnit, d')"
      by (simp add: getFieldUnit_def pos_to_int_def)
    show ?thesis
      by (rule exI [of _ eOakStatusInternalError], rule exI [of _ outFieldUnit])
         (use res absent in simp)
  next
    case e: (Some e)
    then have le: "is_last_pos name CHR '']'' e" by (rule rfind_is_last_pos)
    then have ine: "CHR '']'' \<in> set name" by (rule is_last_pos_in_set)
    show ?thesis
    proof (cases "e \<le> b + 1")
      case True
      with b e assms have res: "getFieldUnit io channelIndex outFieldUnit d
          = Some (eOakStatusInternalError, outFieldUnit, d')"
        by (simp add: getFieldUnit_def pos_to_int_def)
      from True lb le
      have close: "\<exists>b e. is_last_pos name CHR ''['' b \<and> is_last_pos name CHR '']'' e \<and> e \<le> b + 1"
        by blast
      show ?thesis
        by (rule exI [of _ eOakStatusInternalError], rule exI [of _ outFieldUnit])
           (use res close in simp)
    next
      case False
      from lb have "b < length name" by (simp add: is_last_pos_def)
      with False b e assms have res: "getFieldUnit io channelIndex outFieldUnit d
          = Some (eOakStatusOK, take (e - b - 1) (drop (b + 1) name), d')"
        by (simp add: getFieldUnit_def pos_to_int_def substr_def nat_diff_distrib nat_add_distrib)
      have apart: "\<not> (\<exists>b e. is_last_pos name CHR ''['' b \<and> is_last_pos name CHR '']'' e \<and> e \<le> b + 1)"
      proof
        assume "\<exists>b e. is_last_pos name CHR ''['' b \<and> is_last_pos name CHR '']'' e \<and> e \<le> b + 1"
        then obtain b' e' where *: "is_last_pos name CHR ''['' b'" "is_last_pos name CHR '']'' e'"
          "e' \<le> b' + 1" by blast
        from *(1) lb have "b' = b" by (rule is_last_pos_unique)
        moreover from *(2) le have "e' = e" by (rule is_last_pos_unique)
        ultimately show False using *(3) False by simp
      qed
      from False lb le
      have between: "\<exists>b' e'. is_last_pos name CHR ''['' b' \<and> is_last_pos name CHR '']'' e' \<and> b' + 1 < e'
            \<and> take (e - b - 1) (drop (b + 1) name) = take (e' - b' - 1) (drop (b' + 1) name)"
        by (intro exI [of _ b] exI [of _ e]) simp
      show ?thesis
        by (rule exI [of _ eOakStatusOK], rule exI [of _ "take (e - b - 1) (drop (b + 1) name)"])
           (use res apart inb ine between in simp)
    qed
  qed
qed


text \<open>
  The three names of the spec: \<open>Temperature [\<degree>C]\<close> (the degree sign being the two bytes
  \<open>0xC2 0xB0\<close> of its UTF-8 encoding) gives \<open>\<degree>C\<close>; \<open>NoUnit\<close> and \<open>broken]name[\<close> give
  InternalError.
\<close>

theorem getFieldUnit_brackets_witness:
  "getChannelName (named ''NoUnit'') 0 [] () = (eOakStatusOK, ''NoUnit'', ())
   \<and> (\<exists>status u. getFieldUnit (named ''NoUnit'') 0 ''old'' () = Some (status, u, ())
        \<and> (status = eOakStatusInternalError \<longleftrightarrow>
              CHR ''['' \<notin> set ''NoUnit'' \<or> CHR '']'' \<notin> set ''NoUnit''
              \<or> (\<exists>b e. is_last_pos ''NoUnit'' CHR ''['' b \<and> is_last_pos ''NoUnit'' CHR '']'' e
                    \<and> e \<le> b + 1)))
   \<and> getFieldUnit (named ''NoUnit'') 0 ''old'' () = Some (eOakStatusInternalError, ''old'', ())
   \<and> getFieldUnit (named ''broken]name['') 0 ''old'' () = Some (eOakStatusInternalError, ''old'', ())
   \<and> getFieldUnit (named (''Temperature ['' @ [CHR 0xC2, CHR 0xB0] @ ''C]'')) 0 ''old'' ()
        = Some (eOakStatusOK, [CHR 0xC2, CHR 0xB0, CHR ''C''], ())"
proof -
  have name: "getChannelName (named ''NoUnit'') 0 [] () = (eOakStatusOK, ''NoUnit'', ())"
    by (simp add: named_getChannelName c_str_def HID_STRING_SIZE_def)
  from getFieldUnit_brackets [OF name, of "''old''"]
  have general: "\<exists>status u. getFieldUnit (named ''NoUnit'') 0 ''old'' () = Some (status, u, ())
        \<and> (status = eOakStatusInternalError \<longleftrightarrow>
              CHR ''['' \<notin> set ''NoUnit'' \<or> CHR '']'' \<notin> set ''NoUnit''
              \<or> (\<exists>b e. is_last_pos ''NoUnit'' CHR ''['' b \<and> is_last_pos ''NoUnit'' CHR '']'' e
                    \<and> e \<le> b + 1))"
    by blast
  have no_unit: "getFieldUnit (named ''NoUnit'') 0 ''old'' ()
      = Some (eOakStatusInternalError, ''old'', ())"
    by (simp add: getFieldUnit_def named_getChannelName c_str_def HID_STRING_SIZE_def pos_to_int_def)
  have broken: "getFieldUnit (named ''broken]name['') 0 ''old'' ()
      = Some (eOakStatusInternalError, ''old'', ())"
    by (simp add: getFieldUnit_def named_getChannelName c_str_def HID_STRING_SIZE_def pos_to_int_def)
  have degrees: "getFieldUnit (named (''Temperature ['' @ [CHR 0xC2, CHR 0xB0] @ ''C]'')) 0 ''old'' ()
      = Some (eOakStatusOK, [CHR 0xC2, CHR 0xB0, CHR ''C''], ())"
    by (simp add: getFieldUnit_def named_getChannelName c_str_def HID_STRING_SIZE_def pos_to_int_def substr_def)
  from name general no_unit broken degrees show ?thesis by blast
qed

subsection \<open>Interrupt stream reader\<close>

lemma fold_assign_prefix:
  "k \<le> length v \<Longrightarrow> fold (\<lambda>i v. v[i := f i]) [0..<k] v = map f [0..<k] @ drop k v"
proof (induction k)
  case 0
  then show ?case by simp
next
  case (Suc k)
  then have "k < length v" by simp
  then have "(map f [0..<k] @ drop k v)[k := f k] = map f [0..<k] @ f k # drop (Suc k) v"
    by (simp add: list_update_append Cons_nth_drop_Suc [symmetric] )
  with Suc show ?case by simp
qed

lemma fold_assign_all:
  "length v = n \<Longrightarrow> fold (\<lambda>i v. v[i := f i]) [0..<n] v = map f [0..<n]"
  using fold_assign_prefix [of n v f] by simp

lemma length_resize: "length (resize v n) = n"
  by (simp add: resize_def)

text \<open>
  C7. Let the read return \<open>rd\<close> bytes in the event array \<open>ev\<close>. If \<open>rd\<close> is less than the
  size of one event, \<open>readInterruptReport\<close> returns ReadError and the caller's sequence
  is as it was. Otherwise, with \<open>N = rd div sizeof(ev[0])\<close> complete events, it returns OK
  and the sequence holds exactly the values of events \<open>0..N-1\<close>, in that order; when the
  sequence already had length \<open>N\<close>, this is the outcome of assigning the \<open>N\<close> values to
  its own positions, with no resize.
\<close>

theorem readInterruptReport_events:
  assumes "hid_read io d = ((rd, ev), d')"
  shows "(rd < sizeof_hiddev_event \<longrightarrow>
            readInterruptReport io outReadValues d = (eOakStatusReadError, outReadValues, d'))
       \<and> (sizeof_hiddev_event \<le> rd \<longrightarrow>
            readInterruptReport io outReadValues d =
              (eOakStatusOK, map (\<lambda>i. value (ev i)) [0..<nat (rd div sizeof_hiddev_event)], d'))
       \<and> (sizeof_hiddev_event \<le> rd \<and> length outReadValues = nat (rd div sizeof_hiddev_event) \<longrightarrow>
            readInterruptReport io outReadValues d =
              (eOakStatusOK,
               fold (\<lambda>i v. v[i := value (ev i)]) [0..<length outReadValues] outReadValues, d'))"
  using assms
  by (simp add: readInterruptReport_def Let_def fold_assign_all length_resize)

theorem readInterruptReport_events_witness:
  "hid_read (streaming 20) () = ((20, \<lambda>i. \<lparr>hid = 0, value = 7 + of_nat i\<rparr>), ())
   \<and> sizeof_hiddev_event \<le> 20
   \<and> readInterruptReport (streaming 20) [1, 2, 3] () = (eOakStatusOK, [7, 8], ())
   \<and> hid_read (streaming 7) () = ((7, \<lambda>i. \<lparr>hid = 0, value = 7 + of_nat i\<rparr>), ())
   \<and> 7 < sizeof_hiddev_event
   \<and> readInterruptReport (streaming 7) [1, 2, 3] () = (eOakStatusReadError, [1, 2, 3], ())"
proof -
  have r20: "hid_read (streaming 20) () = ((20, \<lambda>i. \<lparr>hid = 0, value = 7 + of_nat i\<rparr>), ())"
    by (simp add: streaming_def simulated_def)
  have r7: "hid_read (streaming 7) () = ((7, \<lambda>i. \<lparr>hid = 0, value = 7 + of_nat i\<rparr>), ())"
    by (simp add: streaming_def simulated_def)
  have two: "[0..<nat (20 div sizeof_hiddev_event)] = [0, 1]"
    by (simp add: sizeof_hiddev_event_def upt_rec)
  from readInterruptReport_events [OF r20, of "[1, 2, 3]"] readInterruptReport_events [OF r7, of "[1, 2, 3]"]
    r20 r7 two
  show ?thesis by (simp add: sizeof_hiddev_event_def)
qed

subsection \<open>Request/reply protocol engine\<close>

lemma always_ready_answering: "always_ready answering"
  by (simp add: always_ready_def answering_def simulated_def ready_reply_def)

lemma accepts_sends_answering: "accepts_sends answering"
  by (simp add: accepts_sends_def answering_def simulated_def)

lemma length_blank_report: "length blank_report = kFeatureReportSize"
  by (simp add: blank_report_def)

lemma readUntilReady_stop:
  assumes "readFeatureReport io buf d = (status, buf', d')"
      and "status \<noteq> eOakStatusOK \<or> buf' ! 0 = 0xff"
  shows "readUntilReady io buf d = Some (status, buf', d')"
  using assms by (subst readUntilReady.simps) auto

lemma readUntilReady_cong_Some:
  assumes run: "readUntilReady io' buf d = Some r"
      and same: "\<forall>buf d. readFeatureReport io' buf d = readFeatureReport io buf d"
  shows "readUntilReady io buf d = Some r"
proof -
  have "io1 = io' \<longrightarrow> readUntilReady io buf d = Some r"
    if "readUntilReady io1 buf d = Some r" for io1
  proof (rule readUntilReady.raw_induct
      [where P = "\<lambda>io1 buf d r. io1 = io' \<longrightarrow> readUntilReady io buf d = Some r"
         and io = io1 and buf = buf and d = d and y = r], goal_cases)
    case (1 poll io1 buf d r)
    show ?case
    proof
      assume io1: "io1 = io'"
      obtain st b' d' where rd: "readFeatureReport io' buf d = (st, b', d')"
        by (cases "readFeatureReport io' buf d") auto
      with same have rd': "readFeatureReport io buf d = (st, b', d')" by simp
      show "readUntilReady io buf d = Some r"
      proof (cases "st = eOakStatusOK \<and> b' ! 0 \<noteq> 0xff")
        case True
        with 1(2) rd io1 have "poll io' b' d' = Some r" by auto
        with 1(1) io1 have "readUntilReady io b' d' = Some r" by blast
        with True rd' show ?thesis by (subst readUntilReady.simps) auto
      next
        case False
        with 1(2) rd io1 have "r = (st, b', d')" by (auto split: if_splits)
        with False rd' show ?thesis by (simp add: readUntilReady_stop)
      qed
    qed
  next
    case 2
    from that show ?case .
  qed
  with run show ?thesis by blast
qed

lemma readUntilReady_cong:
  assumes same: "\<forall>buf d. readFeatureReport io' buf d = readFeatureReport io buf d"
  shows "readUntilReady io' buf d = readUntilReady io buf d"
proof (cases "readUntilReady io' buf d")
  case None
  show ?thesis
  proof (cases "readUntilReady io buf d")
    case None' : None
    with None show ?thesis by simp
  next
    case (Some r)
    from same have "\<forall>buf d. readFeatureReport io buf d = readFeatureReport io' buf d"
      by (intro allI) (rule sym, blast)
    with Some have "readUntilReady io' buf d = Some r"
      by (rule readUntilReady_cong_Some)
    with None show ?thesis by simp
  qed
next
  case (Some r)
  then have "readUntilReady io buf d = Some r"
    using same by (rule readUntilReady_cong_Some)
  with Some show ?thesis by simp
qed

lemma readFeatureReport_traced:
  "readFeatureReport (traced io) buf (d, tr) =
     (case readFeatureReport io buf d of (st, b, d') \<Rightarrow>
        (st, b, (d', tr @ (if fst (hidiocgreport io d) then [HIDIOCGREPORT, HIDIOCGUSAGES]
                          else [HIDIOCGREPORT]))))"
proof -
  obtain ok1 d1 where g1: "hidiocgreport io d = (ok1, d1)"
    by (cases "hidiocgreport io d")
  obtain v d2 where g2: "hidiocgusages io d1 = (v, d2)"
    by (cases "hidiocgusages io d1")
  show ?thesis
    unfolding readFeatureReport_def
    by (cases ok1; cases v) (simp_all add: traced_def g1 g2)
qed

lemma readFeatureReport_traced_calls:
  assumes "readFeatureReport (traced io) buf s = (st, b, s')"
  shows "\<exists>calls. snd s' = snd s @ calls \<and> set calls \<subseteq> poll_calls"
proof -
  obtain d tr where s: "s = (d, tr)" by (cases s)
  obtain st0 b0 d0 where r: "readFeatureReport io buf d = (st0, b0, d0)"
    by (cases "readFeatureReport io buf d")
  let ?calls = "if fst (hidiocgreport io d) then [HIDIOCGREPORT, HIDIOCGUSAGES] else [HIDIOCGREPORT]"
  from assms have "snd s' = snd s @ ?calls"
    unfolding s readFeatureReport_traced r by auto
  moreover have "set ?calls \<subseteq> poll_calls"
    by (simp add: poll_calls_def)
  ultimately show ?thesis by blast
qed

lemma readUntilReady_traced_calls:
  assumes run: "readUntilReady (traced io) buf s = Some r"
  shows "\<exists>calls. snd (snd (snd r)) = snd s @ calls \<and> set calls \<subseteq> poll_calls"
proof -
  have "io1 = traced io \<longrightarrow> (\<exists>calls. snd (snd (snd r)) = snd s @ calls \<and> set calls \<subseteq> poll_calls)"
    if "readUntilReady io1 buf s = Some r" for io1
  proof (rule readUntilReady.raw_induct
      [where P = "\<lambda>io1 buf s r. io1 = traced io \<longrightarrow>
         (\<exists>calls. snd (snd (snd r)) = snd s @ calls \<and> set calls \<subseteq> poll_calls)"
         and io = io1 and buf = buf and d = s and y = r], goal_cases)
    case (1 poll io1 buf s r)
    show ?case
    proof
      assume io1: "io1 = traced io"
      obtain st b' s' where rd: "readFeatureReport (traced io) buf s = (st, b', s')"
        by (cases "readFeatureReport (traced io) buf s") auto
      then obtain c1 where c1: "snd s' = snd s @ c1" "set c1 \<subseteq> poll_calls"
        using readFeatureReport_traced_calls by blast
      show "\<exists>calls. snd (snd (snd r)) = snd s @ calls \<and> set calls \<subseteq> poll_calls"
      proof (cases "st = eOakStatusOK \<and> b' ! 0 \<noteq> 0xff")
        case True
        with 1(2) rd io1 have "poll (traced io) b' s' = Some r" by auto
        with 1(1) io1 obtain c2 where "snd (snd (snd r)) = snd s' @ c2" "set c2 \<subseteq> poll_calls"
          by blast
        with c1 have "snd (snd (snd r)) = snd s @ (c1 @ c2) \<and> set (c1 @ c2) \<subseteq> poll_calls"
          by simp
        then show ?thesis by blast
      next
        case False
        with 1(2) rd io1 have "r = (st, b', s')" by (auto split: if_splits)
        with c1 show ?thesis by auto
      qed
    qed
  next
    case 2
    from that show ?case .
  qed
  with run show ?thesis by blast
qed


lemma map_nth_ucast:
  "map (\<lambda>i. f (xs ! i)) [0..<length xs] = map f xs"
  by (rule nth_equalityI) simp_all

lemma sendFeatureReport_traced:
  assumes "length report = kFeatureReportSize"
  shows "sendFeatureReport (traced io) report (d, tr) =
     (case sendFeatureReport io report d of (st, d') \<Rightarrow>
        (st, (d', tr @ HIDIOCSUSAGES (map ucast report)
                       # (if fst (hidiocsusages io (map ucast report) d) then [HIDIOCSREPORT] else []))))"
proof -
  have vals: "map (\<lambda>i. ucast (report ! i)) [0..<kFeatureReportSize] = map ucast report"
    using map_nth_ucast [of ucast report] assms by simp
  obtain ok1 d1 where s1: "hidiocsusages io (map ucast report) d = (ok1, d1)"
    by (cases "hidiocsusages io (map ucast report) d")
  obtain ok2 d2 where s2: "hidiocsreport io d1 = (ok2, d2)"
    by (cases "hidiocsreport io d1")
  show ?thesis
    unfolding sendFeatureReport_def vals Let_def
    by (cases ok1; cases ok2) (simp_all add: traced_def s1 s2)
qed


lemma sendReportAndWaitForReply_trace:
  assumes len: "length report = kFeatureReportSize"
      and run: "sendReportAndWaitForReply (traced io) tempReport report (d, tr0)
                  = Some (status, tempReport', report', (d', tr))"
  shows "\<exists>polls rest. tr = tr0 @ polls @ rest
           \<and> set polls \<subseteq> {HIDIOCGREPORT, HIDIOCGUSAGES}
           \<and> ((rest = [] \<and> report' = report)
              \<or> (\<exists>rest'. rest = HIDIOCSUSAGES (map ucast report) # rest'
                    \<and> (\<forall>vs. HIDIOCSUSAGES vs \<notin> set rest')))"
proof -
  from run obtain st1 tmp1 d1 tr1
    where ready: "readUntilReady (traced io) tempReport (d, tr0) = Some (st1, tmp1, (d1, tr1))"
    by (cases "readUntilReady (traced io) tempReport (d, tr0)")
       (auto simp: sendReportAndWaitForReply_def)
  from readUntilReady_traced_calls [OF ready]
  obtain polls where polls: "tr1 = tr0 @ polls" "set polls \<subseteq> poll_calls"
    by auto
  show ?thesis
  proof (cases "st1 = eOakStatusOK")
    case False
    with run ready have "tr = tr1" "report' = report"
      by (simp_all add: sendReportAndWaitForReply_def)
    with polls have "tr = tr0 @ polls @ [] \<and> set polls \<subseteq> {HIDIOCGREPORT, HIDIOCGUSAGES}
        \<and> report' = report"
      by (simp add: poll_calls_def)
    then show ?thesis by blast
  next
    case ok1: True
    obtain st2 d2 where send0: "sendFeatureReport io report d1 = (st2, d2)"
      by (cases "sendFeatureReport io report d1")
    define sent where "sent = (if fst (hidiocsusages io (map ucast report) d1)
                               then [HIDIOCSREPORT] else [])"
    have send: "sendFeatureReport (traced io) report (d1, tr1)
        = (st2, (d2, tr1 @ HIDIOCSUSAGES (map ucast report) # sent))"
      by (simp add: sendFeatureReport_traced [OF len] send0 sent_def)
    have sent: "\<forall>vs. HIDIOCSUSAGES vs \<notin> set sent"
      by (simp add: sent_def)
    show ?thesis
    proof (cases "st2 = eOakStatusOK")
      case False
      with run ready ok1 send have "tr = tr1 @ HIDIOCSUSAGES (map ucast report) # sent"
        by (auto simp: sendReportAndWaitForReply_def)
      with polls sent
      have "tr = tr0 @ polls @ (HIDIOCSUSAGES (map ucast report) # sent)
          \<and> set polls \<subseteq> {HIDIOCGREPORT, HIDIOCGUSAGES}
          \<and> (\<forall>vs. HIDIOCSUSAGES vs \<notin> set sent)"
        by (simp add: poll_calls_def)
      then show ?thesis by blast
    next
      case ok2: True
      let ?s2 = "(d2, tr1 @ HIDIOCSUSAGES (map ucast report) # sent)"
      from run ready ok1 send ok2 obtain st3 r3 d3 tr3
        where reply: "readUntilReady (traced io) report ?s2 = Some (st3, r3, (d3, tr3))"
          and tr: "tr = tr3"
        by (cases "readUntilReady (traced io) report ?s2")
           (auto simp: sendReportAndWaitForReply_def)
      from readUntilReady_traced_calls [OF reply]
      obtain polls2 where polls2: "tr3 = (tr1 @ HIDIOCSUSAGES (map ucast report) # sent) @ polls2"
          "set polls2 \<subseteq> poll_calls"
        by auto
      from polls2(2) have "\<forall>vs. HIDIOCSUSAGES vs \<notin> set polls2"
        by (auto simp: poll_calls_def)
      with sent polls polls2 tr
      have "tr = tr0 @ polls @ (HIDIOCSUSAGES (map ucast report) # (sent @ polls2))
          \<and> set polls \<subseteq> {HIDIOCGREPORT, HIDIOCGUSAGES}
          \<and> (\<forall>vs. HIDIOCSUSAGES vs \<notin> set (sent @ polls2))"
        by (simp add: poll_calls_def)
      then show ?thesis by blast
    qed
  qed
qed

lemma readUntilReady_susages_upd:
  "readUntilReady (io\<lparr>hidiocsusages := g\<rparr>) buf d = readUntilReady io buf d"
  by (rule readUntilReady_cong)
     (simp add: readFeatureReport_def cong: bool.case_cong option.case_cong)

lemma sendFeatureReport_susages_upd:
  assumes "\<forall>d. g (map (\<lambda>i. ucast (report ! i)) [0..<kFeatureReportSize]) d
             = hidiocsusages io (map (\<lambda>i. ucast (report ! i)) [0..<kFeatureReportSize]) d"
  shows "sendFeatureReport (io\<lparr>hidiocsusages := g\<rparr>) report d = sendFeatureReport io report d"
  using assms by (simp add: sendFeatureReport_def cong: bool.case_cong)

lemma sendReportAndWaitForReply_susages_upd:
  assumes len: "length report = kFeatureReportSize"
      and same: "\<forall>d. g (map ucast report) d = hidiocsusages io (map ucast report) d"
  shows "sendReportAndWaitForReply (io\<lparr>hidiocsusages := g\<rparr>) tempReport report d
           = sendReportAndWaitForReply io tempReport report d"
proof -
  have vals: "map (\<lambda>i. ucast (report ! i)) [0..<kFeatureReportSize] = map ucast report"
    using map_nth_ucast [of ucast report] len by simp
  from same have send: "sendFeatureReport (io\<lparr>hidiocsusages := g\<rparr>) report d'
      = sendFeatureReport io report d'" for d'
    by (intro sendFeatureReport_susages_upd) (simp add: vals)
  show ?thesis
    unfolding sendReportAndWaitForReply_def readUntilReady_susages_upd send ..
qed

text \<open>
  C8. On a 32-byte report, in every transaction, returning or not, the only values the
  device is ever handed through \<open>HIDIOCSUSAGES\<close> are the bytes of the report as the caller
  built it: the transaction runs the same on any device that differs only in what it would
  do with other values. And in every transaction that returns, the calls the device
  receives are first those of the WaitReady polling (\<open>HIDIOCGREPORT\<close>, \<open>HIDIOCGUSAGES\<close>);
  then either the transaction has ended there and the caller's report is as the caller
  built it, or the next call is \<open>HIDIOCSUSAGES\<close> with, value for value, the bytes of that
  report, and no other \<open>HIDIOCSUSAGES\<close> follows.
\<close>

theorem sendReportAndWaitForReply_sends_callers_report:
  assumes len: "length report = kFeatureReportSize"
  shows "(\<forall>g. (\<forall>d. g (map ucast report :: 32 word list) d
                   = hidiocsusages io (map ucast report) d) \<longrightarrow>
            sendReportAndWaitForReply (io\<lparr>hidiocsusages := g\<rparr>) tempReport report d
              = sendReportAndWaitForReply io tempReport report d)
       \<and> (\<forall>status tempReport' report' d' tr.
            sendReportAndWaitForReply (traced io) tempReport report (d, tr0)
              = Some (status, tempReport', report', (d', tr)) \<longrightarrow>
            (\<exists>polls rest. tr = tr0 @ polls @ rest
               \<and> set polls \<subseteq> {HIDIOCGREPORT, HIDIOCGUSAGES}
               \<and> ((rest = [] \<and> report' = report)
                  \<or> (\<exists>rest'. rest = HIDIOCSUSAGES (map ucast report) # rest'
                        \<and> (\<forall>vs. HIDIOCSUSAGES vs \<notin> set rest')))))"
proof (intro conjI allI impI)
  fix g
  assume "\<forall>d. g (map ucast report :: 32 word list) d = hidiocsusages io (map ucast report) d"
  with len show "sendReportAndWaitForReply (io\<lparr>hidiocsusages := g\<rparr>) tempReport report d
      = sendReportAndWaitForReply io tempReport report d"
    by (rule sendReportAndWaitForReply_susages_upd)
next
  fix status tempReport' report' d' tr
  assume "sendReportAndWaitForReply (traced io) tempReport report (d, tr0)
      = Some (status, tempReport', report', (d', tr))"
  with len show "\<exists>polls rest. tr = tr0 @ polls @ rest
      \<and> set polls \<subseteq> {HIDIOCGREPORT, HIDIOCGUSAGES}
      \<and> ((rest = [] \<and> report' = report)
         \<or> (\<exists>rest'. rest = HIDIOCSUSAGES (map ucast report) # rest'
               \<and> (\<forall>vs. HIDIOCSUSAGES vs \<notin> set rest')))"
    by (rule sendReportAndWaitForReply_trace)
qed

theorem sendReportAndWaitForReply_sends_callers_report_witness:
  "length blank_report = kFeatureReportSize
   \<and> (\<forall>d. (\<lambda>vs d. (vs = map ucast blank_report, d)) (map ucast blank_report) d
            = hidiocsusages answering (map ucast blank_report) d)
   \<and> sendReportAndWaitForReply
         (answering\<lparr>hidiocsusages := \<lambda>vs d. (vs = map ucast blank_report, d)\<rparr>)
         blank_report blank_report ()
       = sendReportAndWaitForReply answering blank_report blank_report ()
   \<and> sendReportAndWaitForReply (traced send_refusing) blank_report blank_report ((), [])
        = Some (eOakStatusWriteError, ready_report, blank_report,
                ((), [HIDIOCGREPORT, HIDIOCGUSAGES, HIDIOCSUSAGES (map ucast blank_report)]))
   \<and> (\<exists>polls rest.
         [HIDIOCGREPORT, HIDIOCGUSAGES, HIDIOCSUSAGES (map ucast blank_report)] = [] @ polls @ rest
         \<and> set polls \<subseteq> {HIDIOCGREPORT, HIDIOCGUSAGES}
         \<and> ((rest = [] \<and> blank_report = blank_report)
            \<or> (\<exists>rest'. rest = HIDIOCSUSAGES (map ucast blank_report) # rest'
                  \<and> (\<forall>vs. HIDIOCSUSAGES vs \<notin> set rest'))))"
proof -
  have rd0: "readFeatureReport send_refusing blank_report ()
      = (eOakStatusOK, ready_report, ())"
    by (simp add: readFeatureReport_def send_refusing_def simulated_def ready_report_def)
  have g: "hidiocgreport send_refusing () = (True, ())"
    by (simp add: send_refusing_def simulated_def)
  have rd: "readFeatureReport (traced send_refusing) blank_report ((), [])
      = (eOakStatusOK, ready_report, ((), [HIDIOCGREPORT, HIDIOCGUSAGES]))"
    by (simp add: readFeatureReport_traced rd0 g)
  have "ready_report ! 0 = 0xff"
    by (simp add: kFeatureReportSize_def ready_reply_def ready_report_def)
  with rd have wait: "readUntilReady (traced send_refusing) blank_report ((), [])
      = Some (eOakStatusOK, ready_report, ((), [HIDIOCGREPORT, HIDIOCGUSAGES]))"
    by (intro readUntilReady_stop) simp_all
  have send0: "sendFeatureReport send_refusing blank_report () = (eOakStatusWriteError, ())"
    by (simp add: sendFeatureReport_def send_refusing_def simulated_def)
  have s: "hidiocsusages send_refusing (map ucast blank_report) () = (False, ())"
    by (simp add: send_refusing_def simulated_def)
  have send: "sendFeatureReport (traced send_refusing) blank_report ((), [HIDIOCGREPORT, HIDIOCGUSAGES])
      = (eOakStatusWriteError,
         ((), [HIDIOCGREPORT, HIDIOCGUSAGES, HIDIOCSUSAGES (map ucast blank_report)]))"
    by (simp add: sendFeatureReport_traced [OF length_blank_report] send0 s)
  have run: "sendReportAndWaitForReply (traced send_refusing) blank_report blank_report ((), [])
        = Some (eOakStatusWriteError, ready_report, blank_report,
                ((), [HIDIOCGREPORT, HIDIOCGUSAGES, HIDIOCSUSAGES (map ucast blank_report)]))"
    by (simp add: sendReportAndWaitForReply_def wait send)
  have same: "\<forall>d. (\<lambda>vs d. (vs = map ucast blank_report, d)) (map ucast blank_report) d
      = hidiocsusages answering (map ucast blank_report) d"
    by (simp add: answering_def simulated_def)
  note general = sendReportAndWaitForReply_sends_callers_report [OF length_blank_report]
  from general [where io = answering and tempReport = blank_report and d = "()",
                 THEN conjunct1, rule_format,
                 where g = "\<lambda>vs d. (vs = map ucast blank_report, d)"] same
  have insensitive: "sendReportAndWaitForReply
         (answering\<lparr>hidiocsusages := \<lambda>vs d. (vs = map ucast blank_report, d)\<rparr>)
         blank_report blank_report ()
       = sendReportAndWaitForReply answering blank_report blank_report ()"
    by blast
  from general [where io = send_refusing and tempReport = blank_report and d = "()"
                 and ?tr0.0 = "[]"] run
  have calls: "\<exists>polls rest.
         [HIDIOCGREPORT, HIDIOCGUSAGES, HIDIOCSUSAGES (map ucast blank_report)] = [] @ polls @ rest
         \<and> set polls \<subseteq> {HIDIOCGREPORT, HIDIOCGUSAGES}
         \<and> ((rest = [] \<and> blank_report = blank_report)
            \<or> (\<exists>rest'. rest = HIDIOCSUSAGES (map ucast blank_report) # rest'
                  \<and> (\<forall>vs. HIDIOCSUSAGES vs \<notin> set rest')))"
    by blast
  from length_blank_report same insensitive run calls show ?thesis by blast
qed

lemma readUntilReady_always_ready:
  assumes "always_ready io"
  shows "\<exists>v d1. hidiocgusages io (snd (hidiocgreport io d)) = (Some v, d1)
           \<and> (ucast (v 0) :: 8 word) = 0xff
           \<and> readUntilReady (traced io) buf (d, tr)
               = Some (eOakStatusOK, map (\<lambda>i. ucast (v i)) [0..<kFeatureReportSize],
                       (d1, tr @ [HIDIOCGREPORT, HIDIOCGUSAGES]))"
proof -
  obtain ok d0 where g1: "hidiocgreport io d = (ok, d0)"
    by (cases "hidiocgreport io d")
  from assms have "fst (hidiocgreport io d)" by (simp add: always_ready_def)
  with g1 have ok: "ok" by simp
  obtain r d1 where g2: "hidiocgusages io d0 = (r, d1)"
    by (cases "hidiocgusages io d0")
  from assms have "\<exists>v. fst (hidiocgusages io d0) = Some v \<and> (ucast (v 0) :: 8 word) = 0xff"
    by (simp add: always_ready_def)
  with g2 obtain v where v: "r = Some v" "(ucast (v 0) :: 8 word) = 0xff"
    by auto
  have "readFeatureReport io buf d
      = (eOakStatusOK, map (\<lambda>i. ucast (v i)) [0..<kFeatureReportSize], d1)"
    by (simp add: readFeatureReport_def g1 g2 ok v)
  then have "readFeatureReport (traced io) buf (d, tr)
      = (eOakStatusOK, map (\<lambda>i. ucast (v i)) [0..<kFeatureReportSize],
         (d1, tr @ [HIDIOCGREPORT, HIDIOCGUSAGES]))"
    by (simp add: readFeatureReport_traced g1 ok)
  moreover have "map (\<lambda>i. ucast (v i) :: 8 word) [0..<kFeatureReportSize] ! 0 = 0xff"
    using v(2) by (simp add: kFeatureReportSize_def)
  ultimately have "readUntilReady (traced io) buf (d, tr)
      = Some (eOakStatusOK, map (\<lambda>i. ucast (v i)) [0..<kFeatureReportSize],
              (d1, tr @ [HIDIOCGREPORT, HIDIOCGUSAGES]))"
    by (intro readUntilReady_stop) simp_all
  with g1 g2 v show ?thesis by simp
qed

lemma sendFeatureReport_accepted:
  assumes "accepts_sends io" and len: "length report = kFeatureReportSize"
  shows "\<exists>d3. sendFeatureReport io report d = (eOakStatusOK, d3)
           \<and> sendFeatureReport (traced io) report (d, tr)
               = (eOakStatusOK, (d3, tr @ [HIDIOCSUSAGES (map ucast report), HIDIOCSREPORT]))"
proof -
  have vals: "map (\<lambda>i. ucast (report ! i)) [0..<kFeatureReportSize] = map ucast report"
    using map_nth_ucast [of ucast report] len by simp
  obtain ok1 d2 where s1: "hidiocsusages io (map ucast report) d = (ok1, d2)"
    by (cases "hidiocsusages io (map ucast report) d")
  obtain ok2 d3 where s2: "hidiocsreport io d2 = (ok2, d3)"
    by (cases "hidiocsreport io d2")
  from assms(1) have "fst (hidiocsusages io (map ucast report) d)"
    by (simp add: accepts_sends_def)
  with s1 have ok1: "ok1" by simp
  from assms(1) have "fst (hidiocsreport io d2)"
    by (simp add: accepts_sends_def)
  with s2 have ok2: "ok2" by simp
  have plain: "sendFeatureReport io report d = (eOakStatusOK, d3)"
    unfolding sendFeatureReport_def vals Let_def by (simp add: s1 s2 ok1 ok2)
  then show ?thesis
    by (simp add: sendFeatureReport_traced [OF len] s1 ok1)
qed

text \<open>
  C3, amended. For every device whose feature-report reads all succeed and always carry
  the readiness byte \<open>0xFF\<close>, and that accepts every send, a transaction on a 32-byte
  report returns OK after exactly these calls: one read, one send of the caller's report
  (\<open>HIDIOCSUSAGES\<close> with its bytes, then \<open>HIDIOCSREPORT\<close>), one read. The caller's report
  on return is the low byte of each of the 32 values the device gave in that last read,
  byte 0 being \<open>0xFF\<close>.
\<close>

theorem sendReportAndWaitForReply_ready_device:
  assumes ready: "always_ready io" and sends: "accepts_sends io"
      and len: "length report = kFeatureReportSize"
  shows "\<exists>ready reply d1 d2.
           hidiocgusages io (snd (hidiocgreport io d)) = (Some ready, d1)
         \<and> hidiocgusages io (snd (hidiocgreport io (snd (sendFeatureReport io report d1))))
              = (Some reply, d2)
         \<and> (ucast (reply 0) :: 8 word) = 0xff
         \<and> sendReportAndWaitForReply (traced io) tempReport report (d, [])
              = Some (eOakStatusOK,
                      map (\<lambda>i. ucast (ready i)) [0..<kFeatureReportSize],
                      map (\<lambda>i. ucast (reply i)) [0..<kFeatureReportSize],
                      (d2, [HIDIOCGREPORT, HIDIOCGUSAGES,
                            HIDIOCSUSAGES (map ucast report), HIDIOCSREPORT,
                            HIDIOCGREPORT, HIDIOCGUSAGES]))"
proof -
  from readUntilReady_always_ready [OF ready, of d tempReport "[]"]
  obtain v d1 where wait:
      "hidiocgusages io (snd (hidiocgreport io d)) = (Some v, d1)"
      "readUntilReady (traced io) tempReport (d, [])
         = Some (eOakStatusOK, map (\<lambda>i. ucast (v i)) [0..<kFeatureReportSize],
                 (d1, [HIDIOCGREPORT, HIDIOCGUSAGES]))"
    by auto
  from sendFeatureReport_accepted [OF sends len, of d1 "[HIDIOCGREPORT, HIDIOCGUSAGES]"]
  obtain d3 where send:
      "sendFeatureReport io report d1 = (eOakStatusOK, d3)"
      "sendFeatureReport (traced io) report (d1, [HIDIOCGREPORT, HIDIOCGUSAGES])
         = (eOakStatusOK, (d3, [HIDIOCGREPORT, HIDIOCGUSAGES,
                                HIDIOCSUSAGES (map ucast report), HIDIOCSREPORT]))"
    by auto
  from readUntilReady_always_ready [OF ready, of d3 report
      "[HIDIOCGREPORT, HIDIOCGUSAGES, HIDIOCSUSAGES (map ucast report), HIDIOCSREPORT]"]
  obtain w d2 where reply:
      "hidiocgusages io (snd (hidiocgreport io d3)) = (Some w, d2)"
      "(ucast (w 0) :: 8 word) = 0xff"
      "readUntilReady (traced io) report
         (d3, [HIDIOCGREPORT, HIDIOCGUSAGES, HIDIOCSUSAGES (map ucast report), HIDIOCSREPORT])
         = Some (eOakStatusOK, map (\<lambda>i. ucast (w i)) [0..<kFeatureReportSize],
                 (d2, [HIDIOCGREPORT, HIDIOCGUSAGES, HIDIOCSUSAGES (map ucast report),
                       HIDIOCSREPORT, HIDIOCGREPORT, HIDIOCGUSAGES]))"
    by auto
  have "sendReportAndWaitForReply (traced io) tempReport report (d, [])
      = Some (eOakStatusOK,
              map (\<lambda>i. ucast (v i)) [0..<kFeatureReportSize],
              map (\<lambda>i. ucast (w i)) [0..<kFeatureReportSize],
              (d2, [HIDIOCGREPORT, HIDIOCGUSAGES,
                    HIDIOCSUSAGES (map ucast report), HIDIOCSREPORT,
                    HIDIOCGREPORT, HIDIOCGUSAGES]))"
    by (simp add: sendReportAndWaitForReply_def wait(2) send(2) reply(3))
  with wait(1) send(1) reply(1,2) show ?thesis by simp
qed

theorem sendReportAndWaitForReply_ready_device_witness:
  "always_ready answering \<and> accepts_sends answering \<and> length blank_report = kFeatureReportSize
   \<and> sendReportAndWaitForReply (traced answering) blank_report blank_report ((), [])
        = Some (eOakStatusOK,
                ready_report,
                ready_report,
                ((), [HIDIOCGREPORT, HIDIOCGUSAGES,
                      HIDIOCSUSAGES (map ucast blank_report), HIDIOCSREPORT,
                      HIDIOCGREPORT, HIDIOCGUSAGES]))"
proof -
  have usages: "hidiocgusages answering x = (Some ready_reply, ())" for x
    by (simp add: answering_def simulated_def)
  from sendReportAndWaitForReply_ready_device
         [OF always_ready_answering accepts_sends_answering length_blank_report,
          of "()" blank_report]
  show ?thesis
    by (auto simp: usages always_ready_answering accepts_sends_answering length_blank_report
          ready_report_def)
qed

text \<open>
  C3, as stated, fails on a device whose reads all succeed with the readiness byte \<open>0xFF\<close>
  but that rejects the send: the transaction returns WriteError, not OK, and the caller's
  report is not overwritten.
\<close>

theorem sendReportAndWaitForReply_send_refused:
  "always_ready send_refusing \<and> length blank_report = kFeatureReportSize
   \<and> sendReportAndWaitForReply send_refusing blank_report blank_report ()
        = Some (eOakStatusWriteError,
                ready_report, blank_report, ())"
proof -
  have ready: "always_ready send_refusing"
    by (simp add: always_ready_def send_refusing_def simulated_def ready_reply_def)
  have rd: "readFeatureReport send_refusing blank_report ()
      = (eOakStatusOK, ready_report, ())"
    by (simp add: readFeatureReport_def send_refusing_def simulated_def ready_report_def)
  have "ready_report ! 0 = 0xff"
    by (simp add: kFeatureReportSize_def ready_reply_def ready_report_def)
  with rd have wait: "readUntilReady send_refusing blank_report ()
      = Some (eOakStatusOK, ready_report, ())"
    by (intro readUntilReady_stop) simp_all
  have send: "sendFeatureReport send_refusing blank_report () = (eOakStatusWriteError, ())"
    by (simp add: sendFeatureReport_def send_refusing_def simulated_def)
  show ?thesis
    by (simp add: ready length_blank_report sendReportAndWaitForReply_def wait send)
qed

lemma getUserDeviceName_status:
  "getUserDeviceName io tempReport outDeviceUserName persistent d = Some (status, r)
     \<Longrightarrow> status = eOakStatusOK"
  by (auto simp: getUserDeviceName_def getStringFromReport_def Let_def split: option.splits)

lemma getUserChannelName_status:
  "getUserChannelName io tempReport channelIndex outUserChannelName persistent d = Some (status, r)
     \<Longrightarrow> status = eOakStatusOK"
  by (auto simp: getUserChannelName_def getStringFromReport_def Let_def split: option.splits)

lemma sendReportAndWaitForReply_unplugged:
  "sendReportAndWaitForReply unplugged tempReport report ()
     = Some (eOakStatusReadError, tempReport, report, ())"
proof -
  have "readFeatureReport unplugged tempReport () = (eOakStatusReadError, tempReport, ())"
    by (simp add: readFeatureReport_def unplugged_def simulated_def)
  then have "readUntilReady unplugged tempReport () = Some (eOakStatusReadError, tempReport, ())"
    by (intro readUntilReady_stop) simp_all
  then show ?thesis by (simp add: sendReportAndWaitForReply_def)
qed

text \<open>
  C1. On a device whose feature-report read fails, \<open>sendReportAndWaitForReply\<close> returns
  ReadError for the command report of \<open>getUserDeviceName\<close>, yet \<open>getUserDeviceName\<close>
  and \<open>getUserChannelName\<close> return OK, with a name read out of the command bytes that
  were never sent.
\<close>

theorem getUserName_drops_protocol_error:
  "sendReportAndWaitForReply unplugged blank_report
       ([1, 1, 0x15, 0, 0] @ replicate (kFeatureReportSize - 5) 0) ()
     = Some (eOakStatusReadError, blank_report,
             [1, 1, 0x15, 0, 0] @ replicate (kFeatureReportSize - 5) 0, ())
   \<and> getUserDeviceName unplugged blank_report ''old'' True ()
     = Some (eOakStatusOK, blank_report, [CHR 0x01, CHR 0x15], ())
   \<and> getUserChannelName unplugged blank_report 2 ''old'' True ()
     = Some (eOakStatusOK, blank_report, [CHR 0x01, CHR 0x15, CHR 0x02], ())"
proof -
  have device: "getStringFromReport ([1, 1, 0x15, 0, 0] @ replicate (kFeatureReportSize - 5) 0) ''old''
      = (eOakStatusOK, [1, 1, 0x15, 0, 0] @ replicate (kFeatureReportSize - 5) 0,
         [CHR 0x01, CHR 0x15])"
    by code_simp
  have channel: "getStringFromReport
        ([1, 1, 0x15, word_of_int 2, 0] @ replicate (kFeatureReportSize - 5) 0) ''old''
      = (eOakStatusOK, [1, 1, 0x15, 2, 0] @ replicate (kFeatureReportSize - 5) 0,
         [CHR 0x01, CHR 0x15, CHR 0x02])"
    by code_simp
  from device channel show ?thesis
    by (simp add: getUserDeviceName_def getUserChannelName_def
          sendReportAndWaitForReply_unplugged)
qed

subsection \<open>Channel information\<close>

lemma getChannelName_fieldinfo_upd:
  "getChannelName (io\<lparr>hidiocgfieldinfo := f\<rparr>) = getChannelName io"
  by (intro ext) (simp add: getChannelName_def getStringDescriptor_def)

lemma getFieldUnit_fieldinfo_upd:
  "getFieldUnit (io\<lparr>hidiocgfieldinfo := f\<rparr>) = getFieldUnit io"
  by (intro ext) (simp add: getFieldUnit_def getChannelName_fieldinfo_upd)

lemma readFeatureReport_fieldinfo_upd:
  "readFeatureReport (io\<lparr>hidiocgfieldinfo := f\<rparr>) buf d = readFeatureReport io buf d"
  by (simp add: readFeatureReport_def cong: bool.case_cong option.case_cong)

lemma sendFeatureReport_fieldinfo_upd:
  "sendFeatureReport (io\<lparr>hidiocgfieldinfo := f\<rparr>) report d = sendFeatureReport io report d"
  by (simp add: sendFeatureReport_def cong: bool.case_cong)

lemma readUntilReady_fieldinfo_upd:
  "readUntilReady (io\<lparr>hidiocgfieldinfo := f\<rparr>) buf d = readUntilReady io buf d"
  by (rule readUntilReady_cong) (simp add: readFeatureReport_fieldinfo_upd)

lemma sendReportAndWaitForReply_fieldinfo_upd:
  "sendReportAndWaitForReply (io\<lparr>hidiocgfieldinfo := f\<rparr>) tempReport report d
     = sendReportAndWaitForReply io tempReport report d"
  unfolding sendReportAndWaitForReply_def readUntilReady_fieldinfo_upd
    sendFeatureReport_fieldinfo_upd ..

lemma getUserChannelName_fieldinfo_upd:
  "getUserChannelName (io\<lparr>hidiocgfieldinfo := f\<rparr>) tempReport channelIndex out persistent d
     = getUserChannelName io tempReport channelIndex out persistent d"
  by (simp add: getUserChannelName_def sendReportAndWaitForReply_fieldinfo_upd Let_def)

lemma getFieldInfo_state:
  assumes "\<forall>fi d. snd (f fi d) = snd (hidiocgfieldinfo io fi d)"
  shows "snd (snd (getFieldInfo (io\<lparr>hidiocgfieldinfo := f\<rparr>) channelIndex finfo d))
           = snd (snd (getFieldInfo io channelIndex finfo d))"
proof -
  let ?fi = "finfo\<lparr>report_type := HID_REPORT_TYPE_INPUT, report_id := HID_REPORT_ID_FIRST,
                     field_index := word_of_int channelIndex\<rparr>"
  obtain r d1 where a: "hidiocgfieldinfo io ?fi d = (r, d1)"
    by (cases "hidiocgfieldinfo io ?fi d")
  obtain r' d1' where b: "f ?fi d = (r', d1')"
    by (cases "f ?fi d")
  from assms a b have "d1' = d1" by (metis snd_conv)
  with a b show ?thesis
    by (cases r; cases r') (simp_all add: getFieldInfo_def Let_def)
qed

lemma getChannelInfo_unfold:
  assumes "getChannelName io ch (channelName info) d = (eOakStatusOK, nm, d1)"
      and "getUserChannelName io tmp ch (persistentUserChannelName info) True d1
             = Some (s1, tmp1, n1, d2)"
      and "getUserChannelName io tmp1 ch (volatileUserChannelName info) False d2
             = Some (s2, tmp2, n2, d3)"
  shows "map_option fst (getChannelInfo io tmp ch info finfo0 d)
           = map_option fst (getFieldUnit io ch (unit_name info)
               (snd (snd (getFieldInfo io ch finfo0 d3))))"
proof -
  obtain a fi d4 where g: "getFieldInfo io ch finfo0 d3 = (a, fi, d4)"
    by (cases "getFieldInfo io ch finfo0 d3")
  show ?thesis
  proof (cases "getFieldUnit io ch (unit_name info) d4")
    case None
    then show ?thesis by (simp add: getChannelInfo_def assms g Let_def)
  next
    case (Some r)
    obtain st u d5 where "r = (st, u, d5)" by (cases r)
    with Some show ?thesis by (simp add: getChannelInfo_def assms g Let_def)
  qed
qed


text \<open>
  C10. Replace the answer of the device to the field-descriptor query by any other answer,
  a failure included, that leaves the device in the same state: the status returned by
  \<open>getChannelInfo\<close> (and whether it returns) does not change. And the status of
  \<open>getChannelInfo\<close> is that of the channel-name query if that query failed; otherwise
  \<open>getChannelInfo\<close> returns if and only if the two user-name queries and then the
  unit-name query \<open>getFieldUnit\<close> return, and its status is the one \<open>getFieldUnit\<close>
  returns in the state the device has reached by then, after the channel-name query, the
  two user-name queries and the field-descriptor query. The statuses of the user-name
  queries and of \<open>getFieldInfo\<close> do not enter.
\<close>

theorem getChannelInfo_status_ignores_field_info:
  assumes same_state: "\<forall>fi d. snd (f fi d) = snd (hidiocgfieldinfo io fi d)"
  shows "map_option fst (getChannelInfo (io\<lparr>hidiocgfieldinfo := f\<rparr>) tempReport channelIndex
                           outChannelInfo finfo0 d)
           = map_option fst (getChannelInfo io tempReport channelIndex outChannelInfo finfo0 d)
       \<and> map_option fst (getChannelInfo io tempReport channelIndex outChannelInfo finfo0 d)
           = (case getChannelName io channelIndex (channelName outChannelInfo) d of
                (name_status, name, d1) \<Rightarrow>
                  if eOakStatusOK \<noteq> name_status then Some name_status
                  else
                    (case getUserChannelName io tempReport channelIndex
                            (persistentUserChannelName outChannelInfo) True d1 of
                       None \<Rightarrow> None
                     | Some (s1, tempReport1, n1, d2) \<Rightarrow>
                    (case getUserChannelName io tempReport1 channelIndex
                            (volatileUserChannelName outChannelInfo) False d2 of
                       None \<Rightarrow> None
                     | Some (s2, tempReport2, n2, d3) \<Rightarrow>
                         map_option fst
                           (getFieldUnit io channelIndex (unit_name outChannelInfo)
                              (snd (snd (getFieldInfo io channelIndex finfo0 d3)))))))"
proof -
  let ?io' = "io\<lparr>hidiocgfieldinfo := f\<rparr>"
  obtain st0 nm d1
    where cn: "getChannelName io channelIndex (channelName outChannelInfo) d = (st0, nm, d1)"
    by (cases "getChannelName io channelIndex (channelName outChannelInfo) d")
  then have cn': "getChannelName ?io' channelIndex (channelName outChannelInfo) d = (st0, nm, d1)"
    by (simp add: getChannelName_fieldinfo_upd)
  show ?thesis
  proof (cases "st0 = eOakStatusOK")
    case False
    then show ?thesis by (simp add: getChannelInfo_def cn cn' Let_def)
  next
    case ok: True
    let ?get1 = "\<lambda>io. getUserChannelName io tempReport channelIndex
                          (persistentUserChannelName outChannelInfo) True d1"
    have get1: "?get1 ?io' = ?get1 io" by (rule getUserChannelName_fieldinfo_upd)
    show ?thesis
    proof (cases "?get1 io")
      case None
      with get1 show ?thesis by (simp add: getChannelInfo_def cn cn' ok Let_def)
    next
      case (Some r1)
      obtain s1 tmp1 n1 d2 where r1: "r1 = (s1, tmp1, n1, d2)" by (cases r1)
      let ?get2 = "\<lambda>io. getUserChannelName io tmp1 channelIndex
                            (volatileUserChannelName outChannelInfo) False d2"
      have get2: "?get2 ?io' = ?get2 io" by (rule getUserChannelName_fieldinfo_upd)
      show ?thesis
      proof (cases "?get2 io")
        case None
        with Some r1 get1 get2 show ?thesis
          by (simp add: getChannelInfo_def cn cn' ok Let_def)
      next
        case Some2: (Some r2)
        obtain s2 tmp2 n2 d3 where r2: "r2 = (s2, tmp2, n2, d3)" by (cases r2)
        let ?d4 = "snd (snd (getFieldInfo io channelIndex finfo0 d3))"
        from cn ok Some r1 Some2 r2
        have plain: "map_option fst (getChannelInfo io tempReport channelIndex outChannelInfo finfo0 d)
            = map_option fst (getFieldUnit io channelIndex (unit_name outChannelInfo) ?d4)"
          by (intro getChannelInfo_unfold) simp_all
        from cn' ok Some r1 Some2 r2 get1 get2
        have "map_option fst (getChannelInfo ?io' tempReport channelIndex outChannelInfo finfo0 d)
            = map_option fst (getFieldUnit ?io' channelIndex (unit_name outChannelInfo)
                (snd (snd (getFieldInfo ?io' channelIndex finfo0 d3))))"
          by (intro getChannelInfo_unfold) simp_all
        with plain have indep: "map_option fst
              (getChannelInfo ?io' tempReport channelIndex outChannelInfo finfo0 d)
            = map_option fst (getChannelInfo io tempReport channelIndex outChannelInfo finfo0 d)"
          by (simp add: getFieldUnit_fieldinfo_upd getFieldInfo_state [OF same_state])
        from indep plain show ?thesis by (simp add: cn ok Some r1 Some2 r2)
      qed
    qed
  qed
qed

text \<open>
  On \<open>labelled\<close> the status is OK with and without the field descriptor. On \<open>renaming\<close>
  the unit-name query would return OK in the initial state, but \<open>getChannelInfo\<close> asks it
  after the channel-name query, when the name has become \<open>NoUnit\<close>: the status is
  InternalError, with and without the field descriptor.
\<close>

theorem getChannelInfo_status_ignores_field_info_witness:
  "(\<forall>fi d. snd ((\<lambda>fi d. (None, d)) fi d) = snd (hidiocgfieldinfo labelled fi d))
   \<and> map_option fst (getChannelInfo (labelled\<lparr>hidiocgfieldinfo := \<lambda>fi d. (None, d)\<rparr>)
                         blank_report 0 blank_info zero_field ())
       = Some eOakStatusOK
   \<and> map_option fst (getChannelInfo labelled blank_report 0 blank_info zero_field ())
       = Some eOakStatusOK
   \<and> (\<forall>fi d. snd ((\<lambda>fi d. (None, d)) fi d) = snd (hidiocgfieldinfo renaming fi d))
   \<and> map_option fst (getFieldUnit renaming 0 [] False) = Some eOakStatusOK
   \<and> map_option fst (getChannelInfo renaming blank_report 0 blank_info zero_field False)
       = Some eOakStatusInternalError
   \<and> map_option fst (getChannelInfo (renaming\<lparr>hidiocgfieldinfo := \<lambda>fi d. (None, d)\<rparr>)
                         blank_report 0 blank_info zero_field False)
       = Some eOakStatusInternalError"
proof -
  have same: "\<forall>fi d. snd ((\<lambda>fi d. (None, d)) fi d) = snd (hidiocgfieldinfo labelled fi d)"
    by simp
  from getChannelInfo_status_ignores_field_info [OF same, of blank_report 0 blank_info zero_field "()"]
  have "map_option fst (getChannelInfo (labelled\<lparr>hidiocgfieldinfo := \<lambda>fi d. (None, d)\<rparr>)
                          blank_report 0 blank_info zero_field ())
      = map_option fst (getChannelInfo labelled blank_report 0 blank_info zero_field ())"
    by (rule conjunct1)
  moreover have "map_option fst (getChannelInfo labelled blank_report 0 blank_info zero_field ())
      = Some eOakStatusOK"
    by code_simp
  ultimately have fixed: "map_option fst
        (getChannelInfo (labelled\<lparr>hidiocgfieldinfo := \<lambda>fi d. (None, d)\<rparr>)
           blank_report 0 blank_info zero_field ()) = Some eOakStatusOK
      \<and> map_option fst (getChannelInfo labelled blank_report 0 blank_info zero_field ())
          = Some eOakStatusOK"
    by simp
  have same_r: "\<forall>fi d. snd ((\<lambda>fi d. (None, d)) fi d) = snd (hidiocgfieldinfo renaming fi d)"
    by (simp add: renaming_def)
  note r = getChannelInfo_status_ignores_field_info
             [OF same_r, of blank_report 0 blank_info zero_field False]
  have first: "map_option fst (getFieldUnit renaming 0 [] False) = Some eOakStatusOK"
    by code_simp
  have "(case getChannelName renaming 0 (channelName blank_info) False of
           (name_status, name, d1) \<Rightarrow>
             if eOakStatusOK \<noteq> name_status then Some name_status
             else
               (case getUserChannelName renaming blank_report 0
                       (persistentUserChannelName blank_info) True d1 of
                  None \<Rightarrow> None
                | Some (s1, tempReport1, n1, d2) \<Rightarrow>
               (case getUserChannelName renaming tempReport1 0
                       (volatileUserChannelName blank_info) False d2 of
                  None \<Rightarrow> None
                | Some (s2, tempReport2, n2, d3) \<Rightarrow>
                    map_option fst
                      (getFieldUnit renaming 0 (unit_name blank_info)
                         (snd (snd (getFieldInfo renaming 0 zero_field d3)))))))
        = Some eOakStatusInternalError"
    by code_simp
  with r [THEN conjunct2]
  have renamed: "map_option fst (getChannelInfo renaming blank_report 0 blank_info zero_field False)
      = Some eOakStatusInternalError"
    by simp
  with r [THEN conjunct1]
  have renamed': "map_option fst
        (getChannelInfo (renaming\<lparr>hidiocgfieldinfo := \<lambda>fi d. (None, d)\<rparr>)
           blank_report 0 blank_info zero_field False) = Some eOakStatusInternalError"
    by simp
  from same fixed same_r first renamed renamed' show ?thesis by blast
qed

end
